theory Spec2Isabelle
  imports Main "HOL-Library.Word"
begin

section \<open>The WEBP batch optimizer (scripts/optimize-webp.mjs)\<close>

text \<open>
  The script walks \<open>images/\<close> below the working directory, keeps the paths that end in
  \<open>.webp\<close>, and for each of them reads the file, asks the image library for its metadata,
  re-encodes it, and replaces the file when the image was too wide or the new encoding is
  shorter. This theory embeds the script function by function and proves statements about it.

  What the script does not define itself is a parameter of the model: the image library
  (\<open>sharp\<close>) is a record of functions, and the file system is a store of file contents with
  a list of operations that fail.
\<close>

subsection \<open>Strings and numbers of the host language\<close>

type_synonym path = string
type_synonym bytes = "8 word list"

text \<open>
  A JavaScript number as \<open>parseInt\<close> returns it and as the configuration holds it: \<open>NaN\<close>,
  an integer (the value of a double that is an integer), or one of the two infinities. The
  two zeros are one value: \<open>===\<close> and \<open>>\<close> do not tell them apart.
\<close>

datatype number = NaN | Num int | Infinity | NegInfinity

text \<open>
  \<open>a > b\<close> where the left side is a pixel width, an integer (or \<open>NaN\<close>, \<open>None\<close>), and the
  right side a number of the configuration: false as soon as one side is \<open>NaN\<close>, false
  against \<open>Infinity\<close>, true against \<open>-Infinity\<close>.
\<close>

fun number_gt :: "int option \<Rightarrow> number \<Rightarrow> bool" where
  "number_gt (Some a) (Num b) = (b < a)"
| "number_gt (Some a) NegInfinity = True"
| "number_gt _ _ = False"

text \<open>
  \<open>String.prototype.toLowerCase\<close> on the letters \<open>A\<close> to \<open>Z\<close>. A string is a list of bytes
  here, and the bytes of other characters are left as they are: no character outside
  \<open>A\<close> to \<open>Z\<close> has a lower case made of the characters of \<open>.webp\<close>.
\<close>

definition lower_char :: "char \<Rightarrow> char" where
  "lower_char c =
     (case map_of (zip ''ABCDEFGHIJKLMNOPQRSTUVWXYZ'' ''abcdefghijklmnopqrstuvwxyz'') c of
        None \<Rightarrow> c
      | Some l \<Rightarrow> l)"

definition toLowerCase :: "string \<Rightarrow> string" where
  "toLowerCase s = map lower_char s"

definition endsWith :: "string \<Rightarrow> string \<Rightarrow> bool" where
  "endsWith s suf = (length suf \<le> length s \<and> drop (length s - length suf) s = suf)"

text \<open>The test of lines 27 and 69: \<open>f.toLowerCase().endsWith(".webp")\<close>.\<close>

definition is_webp :: "path \<Rightarrow> bool" where
  "is_webp f = endsWith (toLowerCase f) ''.webp''"

text \<open>Decimal rendering of a number in a template literal.\<close>

definition digit_char :: "nat \<Rightarrow> char" where
  "digit_char d = ''0123456789'' ! d"

fun show_nat :: "nat \<Rightarrow> string" where
  "show_nat n = (if n < 10 then [digit_char n] else show_nat (n div 10) @ [digit_char (n mod 10)])"

declare show_nat.simps [simp del]

definition show_int :: "int \<Rightarrow> string" where
  "show_int i = (if i < 0 then ''-'' @ show_nat (nat (- i)) else show_nat (nat i))"

text \<open>
  The white space that \<open>parseInt\<close> skips: the code points of \<open>WhiteSpace\<close> and
  \<open>LineTerminator\<close> of the language, U+0009 to U+000D, U+0020, U+00A0, U+1680, U+2000 to
  U+200A, U+2028, U+2029, U+202F, U+205F, U+3000 and U+FEFF, each as its bytes in UTF-8.
\<close>

definition white_space :: "string list" where
  "white_space =
     [[CHR 0x09], [CHR 0x0A], [CHR 0x0B], [CHR 0x0C], [CHR 0x0D], [CHR 0x20],
      [CHR 0xC2, CHR 0xA0],
      [CHR 0xE1, CHR 0x9A, CHR 0x80],
      [CHR 0xE2, CHR 0x80, CHR 0x80], [CHR 0xE2, CHR 0x80, CHR 0x81],
      [CHR 0xE2, CHR 0x80, CHR 0x82], [CHR 0xE2, CHR 0x80, CHR 0x83],
      [CHR 0xE2, CHR 0x80, CHR 0x84], [CHR 0xE2, CHR 0x80, CHR 0x85],
      [CHR 0xE2, CHR 0x80, CHR 0x86], [CHR 0xE2, CHR 0x80, CHR 0x87],
      [CHR 0xE2, CHR 0x80, CHR 0x88], [CHR 0xE2, CHR 0x80, CHR 0x89],
      [CHR 0xE2, CHR 0x80, CHR 0x8A],
      [CHR 0xE2, CHR 0x80, CHR 0xA8], [CHR 0xE2, CHR 0x80, CHR 0xA9],
      [CHR 0xE2, CHR 0x80, CHR 0xAF],
      [CHR 0xE2, CHR 0x81, CHR 0x9F],
      [CHR 0xE3, CHR 0x80, CHR 0x80],
      [CHR 0xEF, CHR 0xBB, CHR 0xBF]]"

text \<open>The white-space character a string starts with, if it starts with one.\<close>

definition leading_space :: "string \<Rightarrow> string option" where
  "leading_space s = find (\<lambda>w. take (length w) s = w) white_space"

function trim_start :: "string \<Rightarrow> string" where
  "trim_start s =
     (case leading_space s of
        None \<Rightarrow> s
      | Some w \<Rightarrow> trim_start (drop (length w) s))"
  by pat_completeness auto
termination
proof (relation "measure length")
  show "wf (measure length)"
    by simp
next
  fix s w
  assume "leading_space s = Some w"
  then have mem: "w \<in> set white_space" and tk: "take (length w) s = w"
    by (auto simp: leading_space_def find_Some_iff)
  from mem have ne: "w \<noteq> []"
    by (auto simp: white_space_def)
  from tk have "length (take (length w) s) = length w"
    by simp
  then have le: "length w \<le> length s"
    by simp
  show "(drop (length w) s, s) \<in> measure length"
    using ne le by (cases w) auto
qed

declare trim_start.simps [simp del]

definition digit_val :: "char \<Rightarrow> nat option" where
  "digit_val c = map_of (zip ''0123456789'' [0, 1, 2, 3, 4, 5, 6, 7, 8, 9]) c"

fun parse_digits :: "string \<Rightarrow> nat option \<Rightarrow> nat option" where
  "parse_digits [] acc = acc"
| "parse_digits (c # cs) acc =
     (case digit_val c of
        None \<Rightarrow> acc
      | Some d \<Rightarrow> parse_digits cs (Some (10 * (case acc of None \<Rightarrow> 0 | Some a \<Rightarrow> a) + d)))"

text \<open>The number of binary digits of a natural number.\<close>

fun bit_length :: "nat \<Rightarrow> nat" where
  "bit_length n = (if n = 0 then 0 else Suc (bit_length (n div 2)))"

declare bit_length.simps [simp del]

text \<open>
  The double nearest to a natural number, ties to the even significand of 53 bits; \<open>None\<close>
  when the result is beyond the largest double, where the number is \<open>Infinity\<close>. Below
  \<open>2 ^ 53\<close> every natural number is a double.
\<close>

definition to_double :: "nat \<Rightarrow> nat option" where
  "to_double n =
     (if n < 2 ^ 53 then Some n
      else
        (let e = bit_length n - 53;
             q = n div 2 ^ e;
             r = n mod 2 ^ e;
             up = (2 ^ (e - 1) < r \<or> (r = 2 ^ (e - 1) \<and> odd q));
             m = (if up then q + 1 else q) * 2 ^ e
         in if m < 2 ^ 1024 then Some m else None))"

text \<open>
  \<open>parseInt(s, 10)\<close>: skip leading white space, read an optional sign, then the longest run
  of decimal digits; \<open>NaN\<close> when there is no digit. Whatever follows the digits is ignored.
  The result is the double nearest to the integer read, as V8 computes it (the language
  lets an implementation drop the digits after the twentieth).
\<close>

definition parseInt :: "string \<Rightarrow> number" where
  "parseInt s =
     (let t = trim_start s;
          neg = (t \<noteq> [] \<and> hd t = CHR ''-'');
          u = (if t \<noteq> [] \<and> (hd t = CHR ''-'' \<or> hd t = CHR ''+'') then tl t else t)
      in case parse_digits u None of
           None \<Rightarrow> NaN
         | Some n \<Rightarrow>
             (case to_double n of
                None \<Rightarrow> (if neg then NegInfinity else Infinity)
              | Some m \<Rightarrow> Num (if neg then - int m else int m)))"

text \<open>
  \<open>path.join(dir, name)\<close> for a normalised directory and one segment, on POSIX: the only
  way the script calls it. The working directory \<open>/\<close> already ends in the separator.
\<close>

definition path_join :: "path \<Rightarrow> string \<Rightarrow> path" where
  "path_join dir name = (if dir = ''/'' then dir @ name else dir @ ''/'' @ name)"

text \<open>
  \<open>path.relative(from, to)\<close> for a path \<open>to\<close> below \<open>from\<close>, the only case the script
  has: every path it prints comes from walking \<open>from/images\<close>.
\<close>

definition path_relative :: "path \<Rightarrow> path \<Rightarrow> path" where
  "path_relative from to = drop (length (path_join from [])) to"

subsection \<open>Run configuration (lines 6 to 9)\<close>

record config =
  ROOT :: path
  MAX_WIDTH :: number
  QUALITY :: number

definition TARGET_DIR :: "config \<Rightarrow> path" where
  "TARGET_DIR cfg = path_join (ROOT cfg) ''images''"

text \<open>\<open>process.env.X || dflt\<close>: an unset and an empty variable both give the default.\<close>

definition env_or :: "(string \<rightharpoonup> string) \<Rightarrow> string \<Rightarrow> string \<Rightarrow> string" where
  "env_or env name dflt =
     (case env name of None \<Rightarrow> dflt | Some v \<Rightarrow> if v = [] then dflt else v)"

definition load_config :: "path \<Rightarrow> (string \<rightharpoonup> string) \<Rightarrow> config" where
  "load_config cwd env =
     \<lparr> ROOT = cwd,
       MAX_WIDTH = parseInt (env_or env ''MAX_WIDTH'' ''1920''),
       QUALITY = parseInt (env_or env ''WEBP_QUALITY'' ''80'') \<rparr>"

subsection \<open>The file system\<close>

datatype fsop = OpReaddir | OpReadFile | OpWriteFile | OpRename

datatype error =
    ENOENT path
  | IOFault fsop path
  | ImageError string

text \<open>Every call on a file is recorded, in order, whether it succeeds or not.\<close>

datatype event =
    EvReadFile path
  | EvWriteFile path bytes
  | EvRename path path

text \<open>
  A directory as \<open>readdir\<close> with \<open>withFileTypes\<close> shows it: entries that are directories
  and entries that are not. \<open>Unreadable\<close> is a directory on which \<open>readdir\<close> throws.
\<close>

datatype dirnode = Unreadable | Entries "dirent list"
and dirent = FileEnt string | DirEnt string dirnode

text \<open>
  \<open>files\<close> holds the content of every regular file by path, \<open>dirs\<close> the directory trees by
  the path of their root, and \<open>faults\<close> the calls that fail for a reason outside the
  model (permissions, a full disk, a path that is a directory). A failed \<open>writeFile\<close>
  leaves the store as it was: partial writes are not represented.
\<close>

record fs =
  files :: "path \<rightharpoonup> bytes"
  dirs :: "path \<rightharpoonup> dirnode"
  faults :: "(fsop \<times> path) list"
  trace :: "event list"

definition log_event :: "event \<Rightarrow> fs \<Rightarrow> fs" where
  "log_event ev d = d\<lparr>trace := trace d @ [ev]\<rparr>"

text \<open>Lines 11 to 13: \<open>fs.access\<close> succeeds on anything that is there.\<close>

definition exists :: "path \<Rightarrow> fs \<Rightarrow> bool" where
  "exists p d = (dirs d p \<noteq> None \<or> files d p \<noteq> None)"

definition readFile :: "path \<Rightarrow> fs \<Rightarrow> (error + bytes) \<times> fs" where
  "readFile p d =
     (let d' = log_event (EvReadFile p) d
      in if (OpReadFile, p) \<in> set (faults d) then (Inl (IOFault OpReadFile p), d')
         else case files d p of
                None \<Rightarrow> (Inl (ENOENT p), d')
              | Some b \<Rightarrow> (Inr b, d'))"

definition writeFile :: "path \<Rightarrow> bytes \<Rightarrow> fs \<Rightarrow> error option \<times> fs" where
  "writeFile p b d =
     (let d' = log_event (EvWriteFile p b) d
      in if (OpWriteFile, p) \<in> set (faults d) then (Some (IOFault OpWriteFile p), d')
         else (None, d'\<lparr>files := (files d)(p \<mapsto> b)\<rparr>))"

definition rename :: "path \<Rightarrow> path \<Rightarrow> fs \<Rightarrow> error option \<times> fs" where
  "rename src dst d =
     (let d' = log_event (EvRename src dst) d
      in if (OpRename, src) \<in> set (faults d) then (Some (IOFault OpRename src), d')
         else case files d src of
                None \<Rightarrow> (Some (ENOENT src), d')
              | Some b \<Rightarrow> (None, d'\<lparr>files := ((files d)(src := None))(dst \<mapsto> b)\<rparr>))"

subsection \<open>The directory walker (lines 15 to 24)\<close>

fun walk :: "path \<Rightarrow> dirnode \<Rightarrow> error + path list"
and walk_entries :: "path \<Rightarrow> dirent list \<Rightarrow> path list \<Rightarrow> error + path list" where
  "walk dir Unreadable = Inl (IOFault OpReaddir dir)"
| "walk dir (Entries entries) = walk_entries dir entries []"
| "walk_entries dir [] out = Inr out"
| "walk_entries dir (FileEnt name # es) out = walk_entries dir es (out @ [path_join dir name])"
| "walk_entries dir (DirEnt name sub # es) out =
     (case walk (path_join dir name) sub of
        Inl e \<Rightarrow> Inl e
      | Inr sub_files \<Rightarrow> walk_entries dir es (out @ sub_files))"

text \<open>\<open>walk(dir)\<close> on the file system: \<open>readdir\<close> throws on a path that is no directory.\<close>

definition walk_fs :: "path \<Rightarrow> fs \<Rightarrow> error + path list" where
  "walk_fs dir d =
     (case dirs d dir of
        None \<Rightarrow> Inl (if files d dir = None then ENOENT dir else IOFault OpReaddir dir)
      | Some node \<Rightarrow> walk dir node)"

subsection \<open>The image library\<close>

text \<open>
  \<open>sharp\<close> is not part of the script. The model takes its three entry points as they are
  called: the constructor \<open>sharp(buf, ...)\<close> of line 30, \<open>metadata()\<close> of line 34, and the
  whole pipeline of lines 42 to 46 (resize to a width without enlargement, encode as WEBP
  at a quality, \<open>toBuffer()\<close>), each of which may throw.
\<close>

datatype metadata = Metadata (width: "nat option")

record sharp =
  construct :: "bytes \<Rightarrow> error option"
  get_metadata :: "bytes \<Rightarrow> error + metadata option"
  pipeline :: "number \<Rightarrow> number \<Rightarrow> bytes \<Rightarrow> error + bytes"

subsection \<open>The per-file optimizer (lines 26 to 60)\<close>

datatype reason = metadata_failed | already_optimized

datatype result =
    Unchanged "reason option"
  | Changed (resized: bool) (oldBytes: nat) (newBytes: nat) (orig_width: nat)

text \<open>Line 39: \<open>meta?.width ?? 0\<close>.\<close>

definition width_of :: "metadata option \<Rightarrow> nat" where
  "width_of meta =
     (case meta of
        None \<Rightarrow> 0
      | Some m \<Rightarrow> (case width m of None \<Rightarrow> 0 | Some w \<Rightarrow> w))"

definition optimizeWebp :: "config \<Rightarrow> sharp \<Rightarrow> path \<Rightarrow> fs \<Rightarrow> (error + result) \<times> fs" where
  "optimizeWebp cfg lib filePath d =
     (if \<not> is_webp filePath then (Inr (Unchanged None), d)
      else case readFile filePath d of
        (Inl e, d1) \<Rightarrow> (Inl e, d1)
      | (Inr buf, d1) \<Rightarrow>
          (case construct lib buf of
             Some e \<Rightarrow> (Inl e, d1)
           | None \<Rightarrow>
               (case get_metadata lib buf of
                  Inl e \<Rightarrow> (Inr (Unchanged (Some metadata_failed)), d1)
                | Inr meta \<Rightarrow>
                    (let w = width_of meta
                     in case pipeline lib (MAX_WIDTH cfg) (QUALITY cfg) buf of
                          Inl e \<Rightarrow> (Inl e, d1)
                        | Inr outBuf \<Rightarrow>
                            (let resized = number_gt (Some (int w)) (MAX_WIDTH cfg);
                                 smaller = (length outBuf < length buf)
                             in if \<not> resized \<and> \<not> smaller
                                then (Inr (Unchanged (Some already_optimized)), d1)
                                else
                                  (let tmp = filePath @ ''.tmp''
                                   in case writeFile tmp outBuf d1 of
                                        (Some e, d2) \<Rightarrow> (Inl e, d2)
                                      | (None, d2) \<Rightarrow>
                                          (case rename tmp filePath d2 of
                                             (Some e, d3) \<Rightarrow> (Inl e, d3)
                                           | (None, d3) \<Rightarrow>
                                               (Inr (Changed resized (length buf)
                                                       (length outBuf) w), d3))))))))"

subsection \<open>The run driver (lines 62 to 89)\<close>

record run_state =
  disk :: fs
  stdout :: "string list"
  changedCount :: nat
  savedBytes :: int

text \<open>
  Line 79. The line starts with the check mark U+2705 and a space; a string is a list of
  bytes, so the mark is its three bytes in UTF-8.
\<close>

definition check_mark :: string where
  "check_mark = [CHR 0xE2, CHR 0x9C, CHR 0x85]"

definition optimized_line :: "config \<Rightarrow> path \<Rightarrow> nat \<Rightarrow> nat \<Rightarrow> string" where
  "optimized_line cfg f old new =
     check_mark @ '' optimized: '' @ path_relative (ROOT cfg) f @ '' ('' @ show_nat old
       @ '' -> '' @ show_nat new @ '' bytes)''"

text \<open>Line 83.\<close>

definition done_line :: "nat \<Rightarrow> int \<Rightarrow> string" where
  "done_line n saved =
     ''Done. changed='' @ show_nat n @ '', saved='' @ show_int saved @ '' bytes''"

text \<open>Line 64.\<close>

definition missing_line :: "config \<Rightarrow> string" where
  "missing_line cfg = ''No images/ directory found at: '' @ TARGET_DIR cfg"

text \<open>Lines 76 to 80: what the loop body does with the result of one file.\<close>

definition account :: "config \<Rightarrow> path \<Rightarrow> result \<Rightarrow> run_state \<Rightarrow> run_state" where
  "account cfg f r st =
     (case r of
        Unchanged why \<Rightarrow> st
      | Changed rs old new w \<Rightarrow>
          st\<lparr> stdout := stdout st @ [optimized_line cfg f old new],
              changedCount := changedCount st + 1,
              savedBytes := savedBytes st + (int old - int new) \<rparr>)"

text \<open>
  Lines 74 to 81, the loop over the candidates. An exception leaves the loop at once; the
  state it is returned with is the state at the throw.
\<close>

fun for_webps :: "config \<Rightarrow> sharp \<Rightarrow> path list \<Rightarrow> run_state \<Rightarrow> error option \<times> run_state" where
  "for_webps cfg lib [] st = (None, st)"
| "for_webps cfg lib (f # rest) st =
     (case optimizeWebp cfg lib f (disk st) of
        (Inl e, d') \<Rightarrow> (Some e, st\<lparr>disk := d'\<rparr>)
      | (Inr r, d') \<Rightarrow> for_webps cfg lib rest (account cfg f r (st\<lparr>disk := d'\<rparr>)))"

definition initial_state :: "fs \<Rightarrow> run_state" where
  "initial_state d = \<lparr> disk = d, stdout = [], changedCount = 0, savedBytes = 0 \<rparr>"

definition main :: "config \<Rightarrow> sharp \<Rightarrow> fs \<Rightarrow> error option \<times> run_state" where
  "main cfg lib d =
     (let st = initial_state d
      in if \<not> exists (TARGET_DIR cfg) d
         then (None, st\<lparr>stdout := stdout st @ [missing_line cfg]\<rparr>)
         else case walk_fs (TARGET_DIR cfg) d of
                Inl e \<Rightarrow> (Some e, st)
              | Inr all_files \<Rightarrow>
                  (let webps = filter is_webp all_files
                   in case for_webps cfg lib webps st of
                        (Some e, st') \<Rightarrow> (Some e, st')
                      | (None, st') \<Rightarrow>
                          (None, st'\<lparr>stdout := stdout st'
                                     @ [done_line (changedCount st') (savedBytes st')]\<rparr>)))"

text \<open>
  Lines 86 to 89: the only handler. A run that throws prints the error on the error stream
  and exits with status 1; a run that returns exits with status 0.
\<close>

record exit_state =
  final :: run_state
  stderr :: "error list"
  exitCode :: nat

definition script :: "config \<Rightarrow> sharp \<Rightarrow> fs \<Rightarrow> exit_state" where
  "script cfg lib d =
     (case main cfg lib d of
        (None, st) \<Rightarrow> \<lparr> final = st, stderr = [], exitCode = 0 \<rparr>
      | (Some e, st) \<Rightarrow> \<lparr> final = st, stderr = [e], exitCode = 1 \<rparr>)"

subsection \<open>The results of a run, file by file\<close>

text \<open>
  The same sequence of calls as the loop, without the counters and the output: the list of
  the files processed with their results, the exception that ended the run if there was
  one, and the file system at the end.
\<close>

fun optimize_all ::
  "config \<Rightarrow> sharp \<Rightarrow> path list \<Rightarrow> fs \<Rightarrow> error option \<times> (path \<times> result) list \<times> fs" where
  "optimize_all cfg lib [] d = (None, [], d)"
| "optimize_all cfg lib (f # rest) d =
     (case optimizeWebp cfg lib f d of
        (Inl e, d') \<Rightarrow> (Some e, [], d')
      | (Inr r, d') \<Rightarrow>
          (case optimize_all cfg lib rest d' of (eo, rs, d'') \<Rightarrow> (eo, (f, r) # rs, d'')))"

fun is_changed :: "result \<Rightarrow> bool" where
  "is_changed (Changed rs old new w) = True"
| "is_changed (Unchanged why) = False"

text \<open>The byte delta of one result: original byte count minus new byte count.\<close>

fun delta :: "result \<Rightarrow> int" where
  "delta (Changed rs old new w) = int old - int new"
| "delta (Unchanged why) = 0"

definition changed_files :: "(path \<times> result) list \<Rightarrow> (path \<times> result) list" where
  "changed_files rs = filter (\<lambda>(f, r). is_changed r) rs"

fun line_of :: "config \<Rightarrow> path \<times> result \<Rightarrow> string" where
  "line_of cfg (f, Changed rs old new w) = optimized_line cfg f old new"
| "line_of cfg (f, Unchanged why) = []"

definition total_delta :: "(path \<times> result) list \<Rightarrow> int" where
  "total_delta rs = sum_list (map (\<lambda>(f, r). delta r) (changed_files rs))"

text \<open>
  The calls one candidate \<open>f\<close> can cause: reading \<open>f\<close>, writing its temporary sibling,
  renaming the sibling over \<open>f\<close>.
\<close>

fun event_of :: "path \<Rightarrow> event \<Rightarrow> bool" where
  "event_of f (EvReadFile p) = (p = f)"
| "event_of f (EvWriteFile p b) = (p = f @ ''.tmp'')"
| "event_of f (EvRename src dst) = (src = f @ ''.tmp'' \<and> dst = f)"

text \<open>Whether a call names the path \<open>p\<close>.\<close>

fun mentions :: "path \<Rightarrow> event \<Rightarrow> bool" where
  "mentions p (EvReadFile q) = (p = q)"
| "mentions p (EvWriteFile q b) = (p = q)"
| "mentions p (EvRename src dst) = (p = src \<or> p = dst)"

text \<open>The calls a run added to the trace it started with.\<close>

definition new_events :: "fs \<Rightarrow> fs \<Rightarrow> event list" where
  "new_events before after = drop (length (trace before)) (trace after)"

subsection \<open>What the specification says, in its own words\<close>

text \<open>
  The specification gives the quality level as an integer from 0 to 100, and the two
  output lines as \<open>optimized: <relative-path> (<old>-><new> bytes)\<close> and
  \<open>Done. changed=<n>, saved=<bytes>\<close>. These definitions follow its words, to be compared
  with what the script computes.
\<close>

fun spec_quality_in_range :: "number \<Rightarrow> bool" where
  "spec_quality_in_range (Num i) = (0 \<le> i \<and> i \<le> 100)"
| "spec_quality_in_range _ = False"

definition spec_optimized_line :: "string \<Rightarrow> nat \<Rightarrow> nat \<Rightarrow> string" where
  "spec_optimized_line rel old new =
     ''optimized: '' @ rel @ '' ('' @ show_nat old @ ''->'' @ show_nat new @ '' bytes)''"

definition spec_done_line :: "nat \<Rightarrow> int \<Rightarrow> string" where
  "spec_done_line n saved = ''Done. changed='' @ show_nat n @ '', saved='' @ show_int saved"

subsection \<open>Example runs\<close>

text \<open>
  Concrete inputs on which the statements below are evaluated: the working directory
  \<open>/p\<close>, an image library that reports a fixed width and re-encodes by a fixed function,
  and a flat \<open>images/\<close> directory given by the names and contents of its files.
\<close>

definition cfg_default :: config where
  "cfg_default = load_config ''/p'' Map.empty"

definition env_quality_150 :: "string \<rightharpoonup> string" where
  "env_quality_150 = [''WEBP_QUALITY'' \<mapsto> ''150'']"


definition lib_fixed :: "nat option \<Rightarrow> (bytes \<Rightarrow> bytes) \<Rightarrow> sharp" where
  "lib_fixed w enc =
     \<lparr> construct = (\<lambda>b. None),
       get_metadata = (\<lambda>b. Inr (Some (Metadata w))),
       pipeline = (\<lambda>mw q b. Inr (enc b)) \<rparr>"

text \<open>A 3000 pixel wide image whose new encoding is one byte longer.\<close>

definition lib_wide_grows :: sharp where
  "lib_wide_grows = lib_fixed (Some 3000) (\<lambda>b. b @ [0])"

text \<open>An 800 pixel wide image whose new encoding is one byte longer, and one byte shorter.\<close>

definition lib_narrow_grows :: sharp where
  "lib_narrow_grows = lib_fixed (Some 800) (\<lambda>b. b @ [0])"

definition lib_narrow_shrinks :: sharp where
  "lib_narrow_shrinks = lib_fixed (Some 800) butlast"

text \<open>Metadata without a width; the new encoding is one byte shorter.\<close>

definition lib_no_width :: sharp where
  "lib_no_width = lib_fixed None butlast"

text \<open>Metadata without a width; the new encoding is one byte longer.\<close>

definition lib_no_width_grows :: sharp where
  "lib_no_width_grows = lib_fixed None (\<lambda>b. b @ [0])"

text \<open>A library whose \<open>metadata()\<close> throws on content that starts with a zero byte.\<close>

definition lib_picky :: sharp where
  "lib_picky =
     \<lparr> construct = (\<lambda>b. None),
       get_metadata = (\<lambda>b. if take 1 b = [0] then Inl (ImageError ''unsupported image format'')
                             else Inr (Some (Metadata (Some 800)))),
       pipeline = (\<lambda>mw q b. Inr (butlast b)) \<rparr>"

definition images_dir :: "(string \<times> bytes) list \<Rightarrow> (fsop \<times> path) list \<Rightarrow> fs" where
  "images_dir entries fl =
     \<lparr> files = map_of (map (\<lambda>(name, b). (''/p/images/'' @ name, b)) entries),
       dirs = [''/p/images'' \<mapsto> Entries (map (\<lambda>(name, b). FileEnt name) entries)],
       faults = fl,
       trace = [] \<rparr>"

definition disk_one :: fs where
  "disk_one = images_dir [(''a.webp'', [1, 2, 3])] []"

definition disk_two :: fs where
  "disk_two = images_dir [(''a.webp'', [0, 2, 3]), (''b.webp'', [4, 5, 6])] []"

definition disk_notes :: fs where
  "disk_notes = images_dir [(''a.webp'', [1, 2, 3]), (''notes.tmp'', [5])] []"

definition disk_stale_tmp :: fs where
  "disk_stale_tmp = images_dir [(''a.webp'', [1, 2, 3]), (''a.webp.tmp'', [9])] []"

definition disk_write_fault :: fs where
  "disk_write_fault =
     images_dir [(''a.webp'', [1, 2, 3]), (''b.webp'', [4, 5, 6])]
       [(OpWriteFile, ''/p/images/a.webp.tmp'')]"

definition disk_no_images :: fs where
  "disk_no_images = \<lparr> files = Map.empty, dirs = Map.empty, faults = [], trace = [] \<rparr>"

section \<open>Properties\<close>

subsection \<open>Reading numbers\<close>

lemma digit_val_digit_char: "d < 10 \<Longrightarrow> digit_val (digit_char d) = Some d"
proof -
  assume "d < 10"
  then consider "d = 0" | "d = 1" | "d = 2" | "d = 3" | "d = 4" | "d = 5" | "d = 6" | "d = 7"
    | "d = 8" | "d = 9"
    by (auto simp: less_Suc_eq numeral_eq_Suc)
  then show ?thesis
    by cases (simp_all add: digit_val_def digit_char_def)
qed

lemma digit_is_decimal: "digit_val c = Some d \<Longrightarrow> c \<in> set ''0123456789''"
  by (auto simp: digit_val_def split: if_splits)

lemma leading_space_other:
  assumes "c \<notin> set [CHR 0x09, CHR 0x0A, CHR 0x0B, CHR 0x0C, CHR 0x0D, CHR 0x20, CHR 0xC2, CHR 0xE1,
                     CHR 0xE2, CHR 0xE3, CHR 0xEF]"
  shows "leading_space (c # cs) = None"
  using assms by (simp add: leading_space_def white_space_def)

lemma trim_start_other:
  assumes "c \<notin> set [CHR 0x09, CHR 0x0A, CHR 0x0B, CHR 0x0C, CHR 0x0D, CHR 0x20, CHR 0xC2, CHR 0xE1,
                     CHR 0xE2, CHR 0xE3, CHR 0xEF]"
  shows "trim_start (c # cs) = c # cs"
  using leading_space_other [OF assms] by (subst trim_start.simps) simp

lemma digit_no_space:
  assumes "c \<in> set ''0123456789''"
  shows "c \<notin> set [CHR 0x09, CHR 0x0A, CHR 0x0B, CHR 0x0C, CHR 0x0D, CHR 0x20, CHR 0xC2, CHR 0xE1,
                     CHR 0xE2, CHR 0xE3, CHR 0xEF]"
  using assms by auto

lemma trim_start_digit: "digit_val c = Some d \<Longrightarrow> trim_start (c # cs) = c # cs"
  by (intro trim_start_other digit_no_space digit_is_decimal)

lemma digit_not_sign:
  assumes "digit_val c = Some d"
  shows "c \<noteq> CHR ''-'' \<and> c \<noteq> CHR ''+''"
proof -
  have "digit_val CHR ''-'' = None" "digit_val CHR ''+'' = None"
    by (simp_all add: digit_val_def)
  then show ?thesis
    using assms by auto
qed

lemma parse_digits_snoc:
  "\<forall>c \<in> set ds. digit_val c \<noteq> None \<Longrightarrow>
   parse_digits (ds @ rest) acc = parse_digits rest (parse_digits ds acc)"
  by (induction ds arbitrary: acc) auto

lemma show_nat_digits: "\<forall>c \<in> set (show_nat n). digit_val c \<noteq> None"
proof (induction n rule: show_nat.induct)
  case (1 n)
  show ?case
  proof (cases "n < 10")
    case True
    then show ?thesis
      by (subst show_nat.simps) (simp add: digit_val_digit_char)
  next
    case False
    then show ?thesis
      using "1" by (subst show_nat.simps) (simp add: digit_val_digit_char)
  qed
qed

lemma show_nat_nonempty: "show_nat n \<noteq> []"
  by (subst show_nat.simps) simp

lemma parse_digits_show_nat: "parse_digits (show_nat n) None = Some n"
proof (induction n rule: show_nat.induct)
  case (1 n)
  show ?case
  proof (cases "n < 10")
    case True
    then show ?thesis
      by (subst show_nat.simps) (simp add: digit_val_digit_char)
  next
    case False
    have "parse_digits (show_nat (n div 10) @ [digit_char (n mod 10)]) None
            = parse_digits [digit_char (n mod 10)] (parse_digits (show_nat (n div 10)) None)"
      by (rule parse_digits_snoc [OF show_nat_digits])
    also have "\<dots> = Some (10 * (n div 10) + n mod 10)"
      using False "1" by (simp add: digit_val_digit_char)
    finally show ?thesis
      using False by (subst show_nat.simps) simp
  qed
qed

lemma parseInt_show_nat:
  "parseInt (show_nat n) = (case to_double n of None \<Rightarrow> Infinity | Some m \<Rightarrow> Num (int m))"
proof -
  obtain c cs where sn: "show_nat n = c # cs"
    using show_nat_nonempty [of n] by (cases "show_nat n") auto
  have "digit_val c \<noteq> None"
    using show_nat_digits [of n] by (simp add: sn)
  then obtain d where d: "digit_val c = Some d"
    by auto
  have sign: "c \<noteq> CHR ''-''" "c \<noteq> CHR ''+''"
    using digit_not_sign [OF d] by simp_all
  have "parse_digits (c # cs) None = Some n"
    using parse_digits_show_nat [of n] by (simp add: sn)
  then show ?thesis
    using sign
    by (simp add: parseInt_def sn trim_start_digit [OF d] del: parse_digits.simps
          split: option.splits)
qed

lemma to_double_small: "n < 2 ^ 53 \<Longrightarrow> to_double n = Some n"
  by (simp add: to_double_def)

lemma bit_length_lower: "n \<noteq> 0 \<Longrightarrow> 2 ^ (bit_length n - 1) \<le> n"
proof (induction n rule: bit_length.induct)
  case (1 n)
  show ?case
  proof (cases "n div 2 = 0")
    case True
    then have "bit_length n = 1"
      using "1.prems" by (simp add: bit_length.simps [of n] bit_length.simps [of 0])
    then show ?thesis
      using "1.prems" by simp
  next
    case False
    have ih: "2 ^ (bit_length (n div 2) - 1) \<le> n div 2"
      using "1.IH" "1.prems" False by simp
    have pos: "bit_length (n div 2) \<noteq> 0"
      using False by (simp add: bit_length.simps [of "n div 2"])
    have "bit_length n - 1 = Suc (bit_length (n div 2) - 1)"
      using "1.prems" pos by (simp add: bit_length.simps [of n])
    then have "(2::nat) ^ (bit_length n - 1) = 2 * 2 ^ (bit_length (n div 2) - 1)"
      by simp
    also have "\<dots> \<le> 2 * (n div 2)"
      using ih by simp
    also have "\<dots> \<le> n"
      by simp
    finally show ?thesis .
  qed
qed

lemma to_double_large:
  assumes big: "\<not> n < 2 ^ 53" and res: "to_double n = Some m"
  shows "2 ^ 52 \<le> m"
proof -
  define e where "e = bit_length n - 53"
  define q where "q = n div 2 ^ e"
  have n0: "n \<noteq> 0"
    using big by auto
  have q52: "(2::nat) ^ 52 \<le> q"
  proof (cases "bit_length n \<le> 53")
    case True
    then have "e = 0"
      by (simp add: e_def)
    then have "q = n"
      by (simp add: q_def)
    moreover have "(2::nat) ^ 52 \<le> 2 ^ 53"
      by simp
    moreover have "(2::nat) ^ 53 \<le> n"
      using big by simp
    ultimately show ?thesis
      by (simp only: le_trans)
  next
    case False
    then have "bit_length n - 1 = 52 + e"
      by (simp add: e_def)
    then have "(2::nat) ^ 52 * 2 ^ e \<le> n"
      using bit_length_lower [OF n0] by (simp add: power_add)
    then show ?thesis
      unfolding q_def by (simp add: less_eq_div_iff_mult_less_eq)
  qed
  have pw: "(1::nat) \<le> 2 ^ e"
    by simp
  have low: "q \<le> q * 2 ^ e"
    using pw by simp
  have "q * 2 ^ e \<le> (q + 1) * 2 ^ e"
    by (rule mult_le_mono1) simp
  then have high: "q \<le> (q + 1) * 2 ^ e"
    using low by (rule le_trans [rotated])
  have unfolded: "to_double n
      = (if (if 2 ^ (e - 1) < n mod 2 ^ e \<or> (n mod 2 ^ e = 2 ^ (e - 1) \<and> odd q)
             then q + 1 else q) * 2 ^ e < 2 ^ 1024
         then Some ((if 2 ^ (e - 1) < n mod 2 ^ e \<or> (n mod 2 ^ e = 2 ^ (e - 1) \<and> odd q)
                     then q + 1 else q) * 2 ^ e)
         else None)"
    using big by (simp only: to_double_def Let_def e_def q_def if_False)
  have "m = q * 2 ^ e \<or> m = (q + 1) * 2 ^ e"
    using res unfolding unfolded by (simp only: split: if_splits) auto
  then have "q \<le> m"
    using low high by auto
  then show ?thesis
    using q52 by (rule le_trans [rotated])
qed

lemma quality_range_show_nat: "spec_quality_in_range (parseInt (show_nat n)) \<longleftrightarrow> n \<le> 100"
proof (cases "n < 2 ^ 53")
  case True
  then show ?thesis
    by (simp add: parseInt_show_nat to_double_small)
next
  case False
  then have large: "\<not> n \<le> 100"
    by auto
  show ?thesis
  proof (cases "to_double n")
    case None
    then show ?thesis
      using large by (simp add: parseInt_show_nat)
  next
    case (Some m)
    have "2 ^ 52 \<le> m"
      by (rule to_double_large [OF False Some])
    then have "\<not> int m \<le> 100"
      by auto
    then show ?thesis
      using large Some by (simp add: parseInt_show_nat)
  qed
qed

lemmas parse_defs = parseInt_def trim_start_other digit_val_def to_double_def

subsection \<open>Unfolding and evaluation\<close>

lemmas fs_defs = readFile_def writeFile_def rename_def log_event_def

lemmas string_defs = is_webp_def toLowerCase_def endsWith_def lower_char_def path_join_def
  path_relative_def TARGET_DIR_def

lemmas run_defs = script_def main_def initial_state_def walk_fs_def exists_def optimizeWebp_def
  account_def width_of_def fs_defs optimized_line_def done_line_def missing_line_def
  show_int_def digit_char_def check_mark_def new_events_def

lemma cfg_default_eq: "cfg_default = \<lparr> ROOT = ''/p'', MAX_WIDTH = Num 1920, QUALITY = Num 80 \<rparr>"
  by (simp add: cfg_default_def load_config_def env_or_def parse_defs)

lemmas example_defs = cfg_default_eq lib_fixed_def lib_wide_grows_def lib_narrow_grows_def
  lib_narrow_shrinks_def lib_no_width_def lib_no_width_grows_def lib_picky_def images_dir_def disk_one_def disk_two_def
  disk_notes_def disk_stale_tmp_def disk_write_fault_def disk_no_images_def

lemma show_nat_small: "n < 10 \<Longrightarrow> show_nat n = [digit_char n]"
  by (subst show_nat.simps) simp

subsection \<open>The per-file optimizer, path by path\<close>

lemma readFile_trace: "readFile p d = (r, d') \<Longrightarrow> d' = d\<lparr>trace := trace d @ [EvReadFile p]\<rparr>"
  by (auto simp: readFile_def log_event_def Let_def split: if_splits option.splits)

lemma optimizeWebp_read_fails:
  "is_webp f \<Longrightarrow> readFile f d = (Inl e, d1) \<Longrightarrow> optimizeWebp cfg lib f d = (Inl e, d1)"
  by (simp add: optimizeWebp_def)

lemma optimizeWebp_construct_fails:
  "is_webp f \<Longrightarrow> readFile f d = (Inr buf, d1) \<Longrightarrow> construct lib buf = Some e
   \<Longrightarrow> optimizeWebp cfg lib f d = (Inl e, d1)"
  by (simp add: optimizeWebp_def)

lemma optimizeWebp_metadata_fails:
  "is_webp f \<Longrightarrow> readFile f d = (Inr buf, d1) \<Longrightarrow> construct lib buf = None
   \<Longrightarrow> get_metadata lib buf = Inl e
   \<Longrightarrow> optimizeWebp cfg lib f d = (Inr (Unchanged (Some metadata_failed)), d1)"
  by (simp add: optimizeWebp_def)

lemma optimizeWebp_pipeline_fails:
  "is_webp f \<Longrightarrow> readFile f d = (Inr buf, d1) \<Longrightarrow> construct lib buf = None
   \<Longrightarrow> get_metadata lib buf = Inr meta
   \<Longrightarrow> pipeline lib (MAX_WIDTH cfg) (QUALITY cfg) buf = Inl e
   \<Longrightarrow> optimizeWebp cfg lib f d = (Inl e, d1)"
  by (simp add: optimizeWebp_def)

lemma optimizeWebp_encoded:
  "is_webp f \<Longrightarrow> readFile f d = (Inr buf, d1) \<Longrightarrow> construct lib buf = None
   \<Longrightarrow> get_metadata lib buf = Inr meta
   \<Longrightarrow> pipeline lib (MAX_WIDTH cfg) (QUALITY cfg) buf = Inr outBuf
   \<Longrightarrow> optimizeWebp cfg lib f d =
       (if \<not> number_gt (Some (int (width_of meta))) (MAX_WIDTH cfg) \<and> \<not> length outBuf < length buf
        then (Inr (Unchanged (Some already_optimized)), d1)
        else case writeFile (f @ ''.tmp'') outBuf d1 of
               (Some e, d2) \<Rightarrow> (Inl e, d2)
             | (None, d2) \<Rightarrow>
                 (case rename (f @ ''.tmp'') f d2 of
                    (Some e, d3) \<Rightarrow> (Inl e, d3)
                  | (None, d3) \<Rightarrow>
                      (Inr (Changed (number_gt (Some (int (width_of meta))) (MAX_WIDTH cfg))
                              (length buf) (length outBuf) (width_of meta)), d3)))"
  by (simp add: optimizeWebp_def Let_def)


lemma endsWith_append: "endsWith (f @ suf) suf"
  by (simp add: endsWith_def)

lemma optimizeWebp_effects:
  assumes "optimizeWebp cfg lib f d = (x, d')"
  shows "dirs d' = dirs d \<and> faults d' = faults d
       \<and> (\<exists>evs. trace d' = trace d @ evs \<and> (\<forall>ev \<in> set evs. is_webp f \<and> event_of f ev))
       \<and> (\<forall>p. p \<noteq> f \<longrightarrow> p \<noteq> f @ ''.tmp'' \<longrightarrow> files d' p = files d p)"
  using assms
  by (auto simp: optimizeWebp_def fs_defs Let_def
           split: if_splits option.splits sum.splits)

lemma optimizeWebp_no_leftover:
  assumes "optimizeWebp cfg lib f d = (Inr r, d')"
  shows "(\<forall>p. files d' p \<noteq> None \<longrightarrow> files d p \<noteq> None)
       \<and> (\<exists>evs. trace d' = trace d @ evs
              \<and> (\<forall>p b. EvWriteFile p b \<in> set evs \<longrightarrow> files d' p = None \<and> endsWith p ''.tmp''))"
  using assms
  by (auto simp: optimizeWebp_def fs_defs Let_def endsWith_append
           split: if_splits option.splits sum.splits)

lemma event_of_mentions: "event_of f ev \<Longrightarrow> mentions p ev \<Longrightarrow> p = f \<or> p = f @ ''.tmp''"
  by (cases ev) auto

subsection \<open>The loop and the list of results\<close>

lemma changed_files_Cons:
  "changed_files ((f, r) # rs) = (if is_changed r then (f, r) # changed_files rs else changed_files rs)"
  by (simp add: changed_files_def)

lemma total_delta_Cons:
  "total_delta ((f, r) # rs) = (if is_changed r then delta r + total_delta rs else total_delta rs)"
  by (simp add: total_delta_def changed_files_Cons)

lemma account_changed:
  "is_changed r \<Longrightarrow> account cfg f r st
     = st\<lparr> stdout := stdout st @ [line_of cfg (f, r)], changedCount := changedCount st + 1,
           savedBytes := savedBytes st + delta r \<rparr>"
  by (cases r) (simp_all add: account_def)

lemma account_unchanged: "\<not> is_changed r \<Longrightarrow> account cfg f r st = st"
  by (cases r) (simp_all add: account_def)

lemma for_webps_results:
  "for_webps cfg lib fs st =
     (case optimize_all cfg lib fs (disk st) of
        (eo, rs, d') \<Rightarrow>
          (eo, st\<lparr> disk := d',
                  stdout := stdout st @ map (line_of cfg) (changed_files rs),
                  changedCount := changedCount st + length (changed_files rs),
                  savedBytes := savedBytes st + total_delta rs \<rparr>))"
proof (induction fs arbitrary: st)
  case Nil
  show ?case
    by (simp add: changed_files_def total_delta_def)
next
  case (Cons f rest)
  obtain x d1 where opt: "optimizeWebp cfg lib f (disk st) = (x, d1)"
    by (cases "optimizeWebp cfg lib f (disk st)")
  show ?case
  proof (cases x)
    case (Inl e)
    then show ?thesis
      using opt by (simp add: changed_files_def total_delta_def)
  next
    case (Inr r)
    obtain eo rs d2 where all: "optimize_all cfg lib rest d1 = (eo, rs, d2)"
      by (cases "optimize_all cfg lib rest d1") auto
    show ?thesis
    proof (cases "is_changed r")
      case True
      then show ?thesis
        using opt Inr all Cons.IH [of "account cfg f r (st\<lparr>disk := d1\<rparr>)"]
        by (simp add: account_changed changed_files_Cons total_delta_Cons)
    next
      case False
      then show ?thesis
        using opt Inr all Cons.IH [of "account cfg f r (st\<lparr>disk := d1\<rparr>)"]
        by (simp add: account_unchanged changed_files_Cons total_delta_Cons)
    qed
  qed
qed

lemma optimize_all_append:
  "optimize_all cfg lib (pre @ post) d =
     (case optimize_all cfg lib pre d of
        (Some e, rs, d1) \<Rightarrow> (Some e, rs, d1)
      | (None, rs, d1) \<Rightarrow>
          (case optimize_all cfg lib post d1 of (eo, rs', d2) \<Rightarrow> (eo, rs @ rs', d2)))"
proof (induction pre arbitrary: d)
  case Nil
  show ?case by (simp split: prod.splits)
next
  case (Cons f pre)
  show ?case
    by (simp add: Cons.IH split: prod.splits sum.splits option.splits)
qed

lemma optimize_all_paths:
  "optimize_all cfg lib fs d = (eo, rs, d') \<Longrightarrow>
     (eo = None \<longrightarrow> map fst rs = fs) \<and> map fst rs = take (length rs) fs"
proof (induction fs arbitrary: d rs)
  case Nil
  then show ?case by simp
next
  case (Cons f rest)
  then show ?case
    by (auto split: prod.splits sum.splits)
qed

lemma walk_fs_exists: "walk_fs dir d = Inr fs \<Longrightarrow> exists dir d"
  by (auto simp: walk_fs_def exists_def split: option.splits)

lemma main_results:
  assumes wk: "walk_fs (TARGET_DIR cfg) d = Inr all_files"
    and al: "optimize_all cfg lib (filter is_webp all_files) d = (eo, rs, d')"
  shows "main cfg lib d =
           (eo, \<lparr> disk = d',
                  stdout = map (line_of cfg) (changed_files rs)
                    @ (if eo = None then [done_line (length (changed_files rs)) (total_delta rs)] else []),
                  changedCount = length (changed_files rs),
                  savedBytes = total_delta rs \<rparr>)"
  using walk_fs_exists [OF wk] wk al
  by (cases eo) (simp_all add: main_def Let_def for_webps_results initial_state_def)


lemma optimize_all_effects:
  "optimize_all cfg lib fs d = (eo, rs, d') \<Longrightarrow>
     dirs d' = dirs d \<and> faults d' = faults d
   \<and> (\<exists>evs. trace d' = trace d @ evs
          \<and> (\<forall>ev \<in> set evs. \<exists>f \<in> set fs. is_webp f \<and> event_of f ev))
   \<and> (\<forall>p. (\<forall>f \<in> set fs. p \<noteq> f \<and> p \<noteq> f @ ''.tmp'') \<longrightarrow> files d' p = files d p)"
proof (induction fs arbitrary: d rs eo d')
  case Nil
  then show ?case by simp
next
  case (Cons f rest)
  obtain x d1 where opt: "optimizeWebp cfg lib f d = (x, d1)"
    by (cases "optimizeWebp cfg lib f d")
  note one = optimizeWebp_effects [OF opt]
  have df1: "dirs d1 = dirs d" "faults d1 = faults d"
    using one by simp_all
  have fr1: "\<And>p. p \<noteq> f \<Longrightarrow> p \<noteq> f @ ''.tmp'' \<Longrightarrow> files d1 p = files d p"
    using one by simp
  obtain evs1 where evs1: "trace d1 = trace d @ evs1"
      "\<forall>ev \<in> set evs1. is_webp f \<and> event_of f ev"
    using one by blast
  show ?case
  proof (cases x)
    case (Inl e)
    then have d': "d' = d1"
      using Cons.prems opt by simp
    have "\<forall>ev \<in> set evs1. \<exists>g \<in> set (f # rest). is_webp g \<and> event_of g ev"
      using evs1(2) by simp
    then have "\<exists>evs. trace d' = trace d @ evs
        \<and> (\<forall>ev \<in> set evs. \<exists>g \<in> set (f # rest). is_webp g \<and> event_of g ev)"
      using evs1(1) unfolding d' by blast
    then show ?thesis
      using df1 fr1 by (simp add: d')
  next
    case (Inr r)
    obtain eo2 rs2 d2 where all: "optimize_all cfg lib rest d1 = (eo2, rs2, d2)"
      by (cases "optimize_all cfg lib rest d1") auto
    have d': "d' = d2"
      using Cons.prems opt Inr all by simp
    note ih = Cons.IH [OF all]
    have df2: "dirs d2 = dirs d1" "faults d2 = faults d1"
      using ih by simp_all
    have fr2: "\<And>p. (\<forall>g \<in> set rest. p \<noteq> g \<and> p \<noteq> g @ ''.tmp'') \<Longrightarrow> files d2 p = files d1 p"
      using ih by simp
    obtain evs2 where evs2: "trace d2 = trace d1 @ evs2"
        "\<forall>ev \<in> set evs2. \<exists>g \<in> set rest. is_webp g \<and> event_of g ev"
      using ih by blast
    have tr: "trace d' = trace d @ (evs1 @ evs2)"
      by (simp add: d' evs1 evs2)
    have ev: "\<forall>ev \<in> set (evs1 @ evs2). \<exists>g \<in> set (f # rest). is_webp g \<and> event_of g ev"
    proof
      fix ev
      assume "ev \<in> set (evs1 @ evs2)"
      then consider "ev \<in> set evs1" | "ev \<in> set evs2"
        by auto
      then show "\<exists>g \<in> set (f # rest). is_webp g \<and> event_of g ev"
      proof cases
        case 1
        then show ?thesis using evs1(2) by simp
      next
        case 2
        then obtain g where "g \<in> set rest" "is_webp g \<and> event_of g ev"
          using evs2(2) by blast
        then show ?thesis by auto
      qed
    qed
    have fr: "\<forall>p. (\<forall>g \<in> set (f # rest). p \<noteq> g \<and> p \<noteq> g @ ''.tmp'') \<longrightarrow> files d' p = files d p"
      using fr1 fr2 by (simp add: d')
    have "\<exists>evs. trace d' = trace d @ evs
        \<and> (\<forall>ev \<in> set evs. \<exists>g \<in> set (f # rest). is_webp g \<and> event_of g ev)"
      using tr ev by blast
    then show ?thesis
      using fr df1 df2 by (simp add: d')
  qed
qed

lemma optimize_all_no_leftover:
  "optimize_all cfg lib fs d = (None, rs, d') \<Longrightarrow>
     (\<forall>p. files d' p \<noteq> None \<longrightarrow> files d p \<noteq> None)
   \<and> (\<exists>evs. trace d' = trace d @ evs
          \<and> (\<forall>p b. EvWriteFile p b \<in> set evs \<longrightarrow> files d' p = None \<and> endsWith p ''.tmp''))"
proof (induction fs arbitrary: d rs d')
  case Nil
  then show ?case by simp
next
  case (Cons f rest)
  obtain x d1 where opt: "optimizeWebp cfg lib f d = (x, d1)"
    by (cases "optimizeWebp cfg lib f d")
  obtain r where x: "x = Inr r"
    using Cons.prems opt by (cases x) auto
  obtain eo2 rs2 d2 where all: "optimize_all cfg lib rest d1 = (eo2, rs2, d2)"
    by (cases "optimize_all cfg lib rest d1") auto
  have eo2: "eo2 = None" and d': "d' = d2"
    using Cons.prems opt x all by simp_all
  note one = optimizeWebp_no_leftover [OF opt [unfolded x]]
  note ih = Cons.IH [OF all [unfolded eo2]]
  have dm1: "\<And>p. files d1 p \<noteq> None \<Longrightarrow> files d p \<noteq> None"
    using one by simp
  have dm2: "\<And>p. files d2 p \<noteq> None \<Longrightarrow> files d1 p \<noteq> None"
    using ih by simp
  have keep: "files d1 p = None \<Longrightarrow> files d2 p = None" for p
    using ih by blast
  obtain evs1 where evs1: "trace d1 = trace d @ evs1"
      "\<forall>p b. EvWriteFile p b \<in> set evs1 \<longrightarrow> files d1 p = None \<and> endsWith p ''.tmp''"
    using one by blast
  obtain evs2 where evs2: "trace d2 = trace d1 @ evs2"
      "\<forall>p b. EvWriteFile p b \<in> set evs2 \<longrightarrow> files d2 p = None \<and> endsWith p ''.tmp''"
    using ih by blast
  have tr: "trace d' = trace d @ (evs1 @ evs2)"
    by (simp add: d' evs1 evs2)
  have wr: "\<forall>p b. EvWriteFile p b \<in> set (evs1 @ evs2) \<longrightarrow> files d' p = None \<and> endsWith p ''.tmp''"
  proof (intro allI impI)
    fix p b
    assume "EvWriteFile p b \<in> set (evs1 @ evs2)"
    then consider "EvWriteFile p b \<in> set evs1" | "EvWriteFile p b \<in> set evs2"
      by auto
    then show "files d' p = None \<and> endsWith p ''.tmp''"
    proof cases
      case 1
      then have "files d1 p = None" "endsWith p ''.tmp''"
        using evs1(2) by blast+
      then show ?thesis
        using keep [of p] by (simp add: d')
    next
      case 2
      then have "files d2 p = None \<and> endsWith p ''.tmp''"
        using evs2(2) by blast
      then show ?thesis
        by (simp add: d')
    qed
  qed
  have dm: "\<forall>p. files d' p \<noteq> None \<longrightarrow> files d p \<noteq> None"
    using dm1 dm2 by (auto simp: d')
  have "\<exists>evs. trace d' = trace d @ evs
      \<and> (\<forall>p b. EvWriteFile p b \<in> set evs \<longrightarrow> files d' p = None \<and> endsWith p ''.tmp'')"
    using tr wr by blast
  then show ?case
    using dm by simp
qed

lemma main_done:
  assumes run: "main cfg lib d = (None, st)"
    and ex: "exists (TARGET_DIR cfg) d"
  shows "\<exists>all_files rs.
           walk_fs (TARGET_DIR cfg) d = Inr all_files
         \<and> optimize_all cfg lib (filter is_webp all_files) d = (None, rs, disk st)
         \<and> map fst rs = filter is_webp all_files
         \<and> stdout st = map (line_of cfg) (changed_files rs)
                          @ [done_line (length (changed_files rs)) (total_delta rs)]
         \<and> changedCount st = length (changed_files rs)
         \<and> savedBytes st = total_delta rs"
proof (cases "walk_fs (TARGET_DIR cfg) d")
  case (Inl e)
  then show ?thesis
    using run ex by (simp add: main_def Let_def)
next
  case (Inr all_files)
  obtain eo rs d' where al: "optimize_all cfg lib (filter is_webp all_files) d = (eo, rs, d')"
    by (cases "optimize_all cfg lib (filter is_webp all_files) d") auto
  note res = main_results [OF Inr al]
  have eo: "eo = None"
    using run res by simp
  have st: "st = \<lparr> disk = d',
                   stdout = map (line_of cfg) (changed_files rs)
                     @ [done_line (length (changed_files rs)) (total_delta rs)],
                   changedCount = length (changed_files rs),
                   savedBytes = total_delta rs \<rparr>"
    using run res by (simp add: eo)
  have paths: "map fst rs = filter is_webp all_files"
    using optimize_all_paths [OF al] eo by simp
  show ?thesis
    using Inr al paths by (simp add: st eo)
qed

lemma line_of_changed:
  "map (line_of cfg) (changed_files rs)
     = map (\<lambda>(f, r). check_mark @ '' optimized: '' @ path_relative (ROOT cfg) f @ '' (''
                        @ show_nat (oldBytes r) @ '' -> '' @ show_nat (newBytes r) @ '' bytes)'')
         (changed_files rs)"
proof (rule map_cong [OF refl])
  fix x
  assume "x \<in> set (changed_files rs)"
  then obtain f r where x: "x = (f, r)" and ch: "is_changed r"
    by (auto simp: changed_files_def)
  from ch obtain rz old new w where "r = Changed rz old new w"
    by (cases r) auto
  then show "line_of cfg x
      = (case x of (f, r) \<Rightarrow> check_mark @ '' optimized: '' @ path_relative (ROOT cfg) f @ '' (''
                        @ show_nat (oldBytes r) @ '' -> '' @ show_nat (newBytes r) @ '' bytes)'')"
    by (simp add: x optimized_line_def)
qed

lemma total_delta_changed:
  "total_delta rs
     = sum_list (map (\<lambda>(f, r). int (oldBytes r) - int (newBytes r)) (changed_files rs))"
proof -
  have "map (\<lambda>(f, r). delta r) (changed_files rs)
          = map (\<lambda>(f, r). int (oldBytes r) - int (newBytes r)) (changed_files rs)"
  proof (rule map_cong [OF refl])
    fix x
    assume "x \<in> set (changed_files rs)"
    then obtain f r where x: "x = (f, r)" and ch: "is_changed r"
      by (auto simp: changed_files_def)
    from ch obtain rz old new w where "r = Changed rz old new w"
      by (cases r) auto
    then show "(case x of (f, r) \<Rightarrow> delta r)
        = (case x of (f, r) \<Rightarrow> int (oldBytes r) - int (newBytes r))"
      by (simp add: x)
  qed
  then show ?thesis
    unfolding total_delta_def by (rule arg_cong)
qed

section \<open>The claims\<close>

subsection \<open>C1: when a candidate is rewritten\<close>

text \<open>
  Claim C1. For a candidate file that is read, whose metadata is read and whose pipeline
  returns an output buffer: if the width does not exceed \<open>MAX_WIDTH\<close> and the output is
  not strictly shorter than the original, the result is unchanged / already optimized and
  the file system is as before but for the record of the read; otherwise, when the write
  and the rename do not fail, the result is changed and the file holds the output buffer,
  whatever its size when the width exceeds \<open>MAX_WIDTH\<close>. The temporary file is written if
  and only if the width exceeds \<open>MAX_WIDTH\<close> or the output is strictly shorter.
\<close>

theorem optimizeWebp_decision:
  assumes cand: "is_webp f"
    and rd: "readFile f d = (Inr buf, d1)"
    and ctor: "construct lib buf = None"
    and md: "get_metadata lib buf = Inr meta"
    and pl: "pipeline lib (MAX_WIDTH cfg) (QUALITY cfg) buf = Inr outBuf"
  shows "(\<not> number_gt (Some (int (width_of meta))) (MAX_WIDTH cfg) \<and> \<not> length outBuf < length buf
           \<longrightarrow> optimizeWebp cfg lib f d
                 = (Inr (Unchanged (Some already_optimized)), d\<lparr>trace := trace d @ [EvReadFile f]\<rparr>))
       \<and> (number_gt (Some (int (width_of meta))) (MAX_WIDTH cfg) \<or> length outBuf < length buf
           \<longrightarrow> (OpWriteFile, f @ ''.tmp'') \<notin> set (faults d)
           \<longrightarrow> (OpRename, f @ ''.tmp'') \<notin> set (faults d)
           \<longrightarrow> optimizeWebp cfg lib f d
                 = (Inr (Changed (number_gt (Some (int (width_of meta))) (MAX_WIDTH cfg))
                          (length buf) (length outBuf) (width_of meta)),
                    d\<lparr>files := ((files d)(f @ ''.tmp'' := None))(f \<mapsto> outBuf),
                      trace := trace d @ [EvReadFile f, EvWriteFile (f @ ''.tmp'') outBuf,
                                          EvRename (f @ ''.tmp'') f]\<rparr>))
       \<and> (EvWriteFile (f @ ''.tmp'') outBuf \<in> set (new_events d (snd (optimizeWebp cfg lib f d)))
           \<longleftrightarrow> number_gt (Some (int (width_of meta))) (MAX_WIDTH cfg) \<or> length outBuf < length buf)"
proof -
  note d1 = readFile_trace [OF rd]
  note enc = optimizeWebp_encoded [OF cand rd ctor md pl]
  show ?thesis
    unfolding enc d1
    by (auto simp: writeFile_def rename_def log_event_def new_events_def Let_def)
qed

text \<open>
  The theorem at a 3000 pixel wide image of three bytes whose new encoding has four: it is
  rewritten although it grows. The same image at 800 pixels is left alone.
\<close>

theorem optimizeWebp_decision_witness:
  "is_webp ''/p/images/a.webp''
 \<and> optimizeWebp cfg_default lib_wide_grows ''/p/images/a.webp'' disk_one
     = (Inr (Changed True 3 4 3000),
        disk_one\<lparr>files := ((files disk_one)(''/p/images/a.webp.tmp'' := None))
                             (''/p/images/a.webp'' \<mapsto> [1, 2, 3, 0]),
                 trace := [EvReadFile ''/p/images/a.webp'',
                           EvWriteFile ''/p/images/a.webp.tmp'' [1, 2, 3, 0],
                           EvRename ''/p/images/a.webp.tmp'' ''/p/images/a.webp'']\<rparr>)
 \<and> optimizeWebp cfg_default lib_narrow_grows ''/p/images/a.webp'' disk_one
     = (Inr (Unchanged (Some already_optimized)),
        disk_one\<lparr>trace := [EvReadFile ''/p/images/a.webp'']\<rparr>)"
proof -
  have cand: "is_webp ''/p/images/a.webp''"
    by (simp add: string_defs)
  have rd: "readFile ''/p/images/a.webp'' disk_one
              = (Inr [1, 2, 3], disk_one\<lparr>trace := [EvReadFile ''/p/images/a.webp'']\<rparr>)"
    by (simp add: fs_defs example_defs)
  have wide: "get_metadata lib_wide_grows [1, 2, 3] = Inr (Some (Metadata (Some 3000)))"
      "construct lib_wide_grows [1, 2, 3] = None"
      "pipeline lib_wide_grows (MAX_WIDTH cfg_default) (QUALITY cfg_default) [1, 2, 3]
         = Inr [1, 2, 3, 0]"
    by (simp_all add: example_defs)
  have narrow: "get_metadata lib_narrow_grows [1, 2, 3] = Inr (Some (Metadata (Some 800)))"
      "construct lib_narrow_grows [1, 2, 3] = None"
      "pipeline lib_narrow_grows (MAX_WIDTH cfg_default) (QUALITY cfg_default) [1, 2, 3]
         = Inr [1, 2, 3, 0]"
    by (simp_all add: example_defs)
  have tr: "trace disk_one = []" "faults disk_one = []"
    by (simp_all add: example_defs)
  show ?thesis
    using cand
      optimizeWebp_decision [OF cand rd wide(2) wide(1) wide(3)]
      optimizeWebp_decision [OF cand rd narrow(2) narrow(1) narrow(3)]
    by (simp add: width_of_def cfg_default_eq tr)
qed

subsection \<open>C2: a file whose metadata cannot be read\<close>

text \<open>
  Claim C2. For a candidate file that is read and on which metadata extraction throws,
  \<open>optimizeWebp\<close> returns unchanged with reason \<open>metadata_failed\<close> and no error; nothing is
  written (the file system is as before but for the record of the read); and the loop goes
  on with the next file with the same counters and the same output.
\<close>

theorem metadata_failure_is_skipped:
  assumes cand: "is_webp f"
    and rd: "readFile f (disk st) = (Inr buf, d1)"
    and ctor: "construct lib buf = None"
    and md: "get_metadata lib buf = Inl e"
  shows "optimizeWebp cfg lib f (disk st)
           = (Inr (Unchanged (Some metadata_failed)),
              (disk st)\<lparr>trace := trace (disk st) @ [EvReadFile f]\<rparr>)
       \<and> for_webps cfg lib (f # rest) st
           = for_webps cfg lib rest
               (st\<lparr>disk := (disk st)\<lparr>trace := trace (disk st) @ [EvReadFile f]\<rparr>\<rparr>)"
proof -
  note d1 = readFile_trace [OF rd]
  have opt: "optimizeWebp cfg lib f (disk st) = (Inr (Unchanged (Some metadata_failed)), d1)"
    by (rule optimizeWebp_metadata_fails [OF cand rd ctor md])
  show ?thesis
    using opt by (simp add: d1 account_def)
qed

text \<open>
  The theorem on two files, the first of which has unreadable metadata: the run reads it,
  goes on to the second, rewrites that one, and counts one changed file.
\<close>

theorem metadata_failure_is_skipped_witness:
  "optimizeWebp cfg_default lib_picky ''/p/images/a.webp'' disk_two
     = (Inr (Unchanged (Some metadata_failed)),
        disk_two\<lparr>trace := [EvReadFile ''/p/images/a.webp'']\<rparr>)
 \<and> for_webps cfg_default lib_picky [''/p/images/a.webp'', ''/p/images/b.webp'']
       (initial_state disk_two)
     = (None,
        \<lparr> disk = disk_two\<lparr>files := ((files disk_two)(''/p/images/b.webp.tmp'' := None))
                                       (''/p/images/b.webp'' \<mapsto> [4, 5]),
                           trace := [EvReadFile ''/p/images/a.webp'',
                                     EvReadFile ''/p/images/b.webp'',
                                     EvWriteFile ''/p/images/b.webp.tmp'' [4, 5],
                                     EvRename ''/p/images/b.webp.tmp'' ''/p/images/b.webp'']\<rparr>,
          stdout = [check_mark @ '' optimized: images/b.webp (3 -> 2 bytes)''],
          changedCount = 1,
          savedBytes = 1 \<rparr>)"
proof -
  have cand: "is_webp ''/p/images/a.webp''"
    by (simp add: string_defs)
  have rd: "readFile ''/p/images/a.webp'' (disk (initial_state disk_two))
              = (Inr [0, 2, 3], disk_two\<lparr>trace := [EvReadFile ''/p/images/a.webp'']\<rparr>)"
    by (simp add: fs_defs example_defs initial_state_def)
  have ctor: "construct lib_picky [0, 2, 3] = None"
    by (simp add: example_defs)
  have md: "get_metadata lib_picky [0, 2, 3] = Inl (ImageError ''unsupported image format'')"
    by (simp add: example_defs)
  have tr: "trace disk_two = []"
    by (simp add: example_defs)
  have nxt: "for_webps cfg_default lib_picky [''/p/images/b.webp'']
               (initial_state disk_two
                  \<lparr>disk := disk_two\<lparr>trace := [EvReadFile ''/p/images/a.webp'']\<rparr>\<rparr>)
      = (None,
        \<lparr> disk = disk_two\<lparr>files := ((files disk_two)(''/p/images/b.webp.tmp'' := None))
                                       (''/p/images/b.webp'' \<mapsto> [4, 5]),
                           trace := [EvReadFile ''/p/images/a.webp'',
                                     EvReadFile ''/p/images/b.webp'',
                                     EvWriteFile ''/p/images/b.webp.tmp'' [4, 5],
                                     EvRename ''/p/images/b.webp.tmp'' ''/p/images/b.webp'']\<rparr>,
          stdout = [check_mark @ '' optimized: images/b.webp (3 -> 2 bytes)''],
          changedCount = 1,
          savedBytes = 1 \<rparr>)"
    by (simp add: run_defs string_defs example_defs show_nat_small Let_def)
  have st0: "disk (initial_state disk_two) = disk_two"
    by (simp add: initial_state_def)
  show ?thesis
    using metadata_failure_is_skipped [OF cand rd ctor md, of cfg_default "[''/p/images/b.webp'']"]
    by (simp add: st0 tr nxt del: for_webps.simps)
qed


subsection \<open>C5: no images directory\<close>

text \<open>
  Claim C5. If the directory \<open>images\<close> below the working directory does not exist, the run
  prints one informational line, processes no file (the file system, with its record of
  calls, is as before), and exits with status 0 and nothing on the error stream.
\<close>

theorem missing_directory_is_no_error:
  assumes "\<not> exists (path_join (ROOT cfg) ''images'') d"
  shows "script cfg lib d
           = \<lparr> final = \<lparr> disk = d,
                         stdout = [''No images/ directory found at: ''
                                     @ path_join (ROOT cfg) ''images''],
                         changedCount = 0,
                         savedBytes = 0 \<rparr>,
               stderr = [],
               exitCode = 0 \<rparr>"
  using assms by (simp add: script_def main_def initial_state_def missing_line_def TARGET_DIR_def)

theorem missing_directory_is_no_error_witness:
  "\<not> exists (path_join (ROOT cfg_default) ''images'') disk_no_images
 \<and> script cfg_default lib_wide_grows disk_no_images
     = \<lparr> final = \<lparr> disk = disk_no_images,
                   stdout = [''No images/ directory found at: /p/images''],
                   changedCount = 0,
                   savedBytes = 0 \<rparr>,
         stderr = [],
         exitCode = 0 \<rparr>"
proof -
  have absent: "\<not> exists (path_join (ROOT cfg_default) ''images'') disk_no_images"
    by (simp add: exists_def example_defs)
  show ?thesis
    using absent missing_directory_is_no_error [OF absent, of lib_wide_grows]
    by (simp add: cfg_default_eq path_join_def)
qed

subsection \<open>C8: the configuration read from the environment\<close>

text \<open>
  Claim C8, as amended. When \<open>MAX_WIDTH\<close> is unset the maximum width is 1920, and when
  \<open>WEBP_QUALITY\<close> is unset the quality is 80, which lies between 0 and 100. When
  \<open>WEBP_QUALITY\<close> is the decimal numeral of a number \<open>n\<close>, the script checks no range: the
  quality lies between 0 and 100 exactly when \<open>n\<close> does, and below \<open>2 ^ 53\<close> (where every
  integer is a number of the language) the quality is \<open>n\<close> itself.
\<close>

theorem config_defaults_and_unchecked_quality:
  "(env ''MAX_WIDTH'' = None \<longrightarrow> MAX_WIDTH (load_config cwd env) = Num 1920)
 \<and> (env ''WEBP_QUALITY'' = None \<longrightarrow> QUALITY (load_config cwd env) = Num 80
        \<and> spec_quality_in_range (QUALITY (load_config cwd env)))
 \<and> (env ''WEBP_QUALITY'' = Some (show_nat n)
        \<longrightarrow> (spec_quality_in_range (QUALITY (load_config cwd env)) \<longleftrightarrow> n \<le> 100)
          \<and> (n < 2 ^ 53 \<longrightarrow> QUALITY (load_config cwd env) = Num (int n)))"
proof -
  have dflt_w: "parseInt ''1920'' = Num 1920"
    by (simp add: parse_defs)
  have dflt_q: "parseInt ''80'' = Num 80"
    by (simp add: parse_defs)
  have exact: "n < 2 ^ 53 \<longrightarrow> parseInt (show_nat n) = Num (int n)"
    by (simp add: parseInt_show_nat to_double_small)
  show ?thesis
    using show_nat_nonempty [of n] exact
    by (simp add: load_config_def env_or_def dflt_w dflt_q quality_range_show_nat)
qed

theorem config_defaults_and_unchecked_quality_witness:
  "MAX_WIDTH (load_config ''/p'' env_quality_150) = Num 1920
 \<and> QUALITY (load_config ''/p'' env_quality_150) = Num 150
 \<and> \<not> spec_quality_in_range (QUALITY (load_config ''/p'' env_quality_150))
 \<and> MAX_WIDTH cfg_default = Num 1920
 \<and> QUALITY cfg_default = Num 80
 \<and> spec_quality_in_range (QUALITY cfg_default)"
proof -
  have no_width: "env_quality_150 ''MAX_WIDTH'' = None"
    by (simp add: env_quality_150_def)
  have numeral: "show_nat 150 = ''150''"
    by (simp add: show_nat.simps digit_char_def)
  have set150: "env_quality_150 ''WEBP_QUALITY'' = Some (show_nat 150)"
    by (simp add: env_quality_150_def numeral)
  have small: "(150::nat) < 2 ^ 53"
    by simp
  note set_case = config_defaults_and_unchecked_quality [of env_quality_150 "''/p''" 150]
  note unset_case = config_defaults_and_unchecked_quality [of Map.empty "''/p''" 0]
  have w150: "MAX_WIDTH (load_config ''/p'' env_quality_150) = Num 1920"
    using set_case no_width by blast
  have q150: "QUALITY (load_config ''/p'' env_quality_150) = Num (int 150)"
    using set_case set150 small by blast
  have r150: "\<not> spec_quality_in_range (QUALITY (load_config ''/p'' env_quality_150))"
    using set_case set150 by simp
  have dflt: "MAX_WIDTH (load_config ''/p'' Map.empty) = Num 1920"
      "QUALITY (load_config ''/p'' Map.empty) = Num 80"
      "spec_quality_in_range (QUALITY (load_config ''/p'' Map.empty))"
    using unset_case by blast+
  have q150': "QUALITY (load_config ''/p'' env_quality_150) = Num 150"
    using q150 by simp
  show ?thesis
    using w150 q150' r150 dflt unfolding cfg_default_def by blast
qed

text \<open>
  Claim C8 as stated fails where it says that the quality is between 0 and 100 in every
  run: with \<open>WEBP_QUALITY=150\<close> the quality of the run is 150.
\<close>

theorem quality_out_of_range_counterexample:
  "QUALITY (load_config ''/p'' env_quality_150) = Num 150
 \<and> \<not> spec_quality_in_range (QUALITY (load_config ''/p'' env_quality_150))"
  by (simp add: load_config_def env_or_def env_quality_150_def parse_defs)

subsection \<open>C9: metadata without a width\<close>




subsection \<open>Example runs, evaluated\<close>

lemma new_events_append: "trace d' = trace d @ evs \<Longrightarrow> new_events d d' = evs"
  by (simp add: new_events_def)

lemma main_notes:
  "main cfg_default lib_wide_grows disk_notes
     = (None,
        \<lparr> disk = disk_notes\<lparr>files := ((files disk_notes)(''/p/images/a.webp.tmp'' := None))
                                         (''/p/images/a.webp'' \<mapsto> [1, 2, 3, 0]),
                             trace := [EvReadFile ''/p/images/a.webp'',
                                       EvWriteFile ''/p/images/a.webp.tmp'' [1, 2, 3, 0],
                                       EvRename ''/p/images/a.webp.tmp'' ''/p/images/a.webp'']\<rparr>,
          stdout = [check_mark @ '' optimized: images/a.webp (3 -> 4 bytes)'',
                    ''Done. changed=1, saved=-1 bytes''],
          changedCount = 1,
          savedBytes = - 1 \<rparr>)"
  by (simp add: run_defs string_defs example_defs show_nat_small Let_def)

lemma main_stale_tmp:
  "main cfg_default lib_wide_grows disk_stale_tmp
     = (None,
        \<lparr> disk = disk_stale_tmp\<lparr>files := ((files disk_stale_tmp)(''/p/images/a.webp.tmp'' := None))
                                             (''/p/images/a.webp'' \<mapsto> [1, 2, 3, 0]),
                                 trace := [EvReadFile ''/p/images/a.webp'',
                                           EvWriteFile ''/p/images/a.webp.tmp'' [1, 2, 3, 0],
                                           EvRename ''/p/images/a.webp.tmp'' ''/p/images/a.webp'']\<rparr>,
          stdout = [check_mark @ '' optimized: images/a.webp (3 -> 4 bytes)'',
                    ''Done. changed=1, saved=-1 bytes''],
          changedCount = 1,
          savedBytes = - 1 \<rparr>)"
  by (simp add: run_defs string_defs example_defs show_nat_small Let_def)

lemma main_stale_tmp_unchanged:
  "main cfg_default lib_narrow_grows disk_stale_tmp
     = (None,
        \<lparr> disk = disk_stale_tmp\<lparr>trace := [EvReadFile ''/p/images/a.webp'']\<rparr>,
          stdout = [''Done. changed=0, saved=0 bytes''],
          changedCount = 0,
          savedBytes = 0 \<rparr>)"
  by (simp add: run_defs string_defs example_defs show_nat_small Let_def)

lemma main_one:
  "main cfg_default lib_wide_grows disk_one
     = (None,
        \<lparr> disk = disk_one\<lparr>files := ((files disk_one)(''/p/images/a.webp.tmp'' := None))
                                       (''/p/images/a.webp'' \<mapsto> [1, 2, 3, 0]),
                           trace := [EvReadFile ''/p/images/a.webp'',
                                     EvWriteFile ''/p/images/a.webp.tmp'' [1, 2, 3, 0],
                                     EvRename ''/p/images/a.webp.tmp'' ''/p/images/a.webp'']\<rparr>,
          stdout = [check_mark @ '' optimized: images/a.webp (3 -> 4 bytes)'',
                    ''Done. changed=1, saved=-1 bytes''],
          changedCount = 1,
          savedBytes = - 1 \<rparr>)"
  by (simp add: run_defs string_defs example_defs show_nat_small Let_def)

lemma main_picky:
  "main cfg_default lib_picky disk_two
     = (None,
        \<lparr> disk = disk_two\<lparr>files := ((files disk_two)(''/p/images/b.webp.tmp'' := None))
                                       (''/p/images/b.webp'' \<mapsto> [4, 5]),
                           trace := [EvReadFile ''/p/images/a.webp'',
                                     EvReadFile ''/p/images/b.webp'',
                                     EvWriteFile ''/p/images/b.webp.tmp'' [4, 5],
                                     EvRename ''/p/images/b.webp.tmp'' ''/p/images/b.webp'']\<rparr>,
          stdout = [check_mark @ '' optimized: images/b.webp (3 -> 2 bytes)'',
                    ''Done. changed=1, saved=1 bytes''],
          changedCount = 1,
          savedBytes = 1 \<rparr>)"
  by (simp add: run_defs string_defs example_defs show_nat_small Let_def)

lemma walk_examples:
  "walk_fs (TARGET_DIR cfg_default) disk_one = Inr [''/p/images/a.webp'']"
  "walk_fs (TARGET_DIR cfg_default) disk_two = Inr [''/p/images/a.webp'', ''/p/images/b.webp'']"
  "walk_fs (TARGET_DIR cfg_default) disk_notes = Inr [''/p/images/a.webp'', ''/p/images/notes.tmp'']"
  "walk_fs (TARGET_DIR cfg_default) disk_stale_tmp
     = Inr [''/p/images/a.webp'', ''/p/images/a.webp.tmp'']"
  "walk_fs (TARGET_DIR cfg_default) disk_write_fault
     = Inr [''/p/images/a.webp'', ''/p/images/b.webp'']"
  by (simp_all add: walk_fs_def string_defs example_defs)

subsection \<open>C3: the temporary file\<close>

text \<open>
  Claim C3, as amended. Whenever \<open>optimizeWebp\<close> decides to rewrite a file, it first
  writes the complete output buffer to the path made of the original path and \<open>.tmp\<close>, and
  then, if the write did not fail, renames that path over the original; when neither call
  fails the temporary path is gone and the original path holds the output buffer.
  Consequently, after a run that ends without an error, every path the run wrote is a
  \<open>.tmp\<close> path that is no longer on disk, and every file on disk was there before the run:
  a \<open>.tmp\<close> file can remain only if it was there before.
\<close>

theorem temp_file_written_then_renamed:
  "(is_webp f \<and> readFile f d = (Inr buf, d1) \<and> construct lib buf = None
      \<and> get_metadata lib buf = Inr meta
      \<and> pipeline lib (MAX_WIDTH cfg) (QUALITY cfg) buf = Inr outBuf
      \<and> (number_gt (Some (int (width_of meta))) (MAX_WIDTH cfg) \<or> length outBuf < length buf)
     \<longrightarrow> (\<exists>rest. new_events d (snd (optimizeWebp cfg lib f d))
                    = EvReadFile f # EvWriteFile (f @ ''.tmp'') outBuf # rest
               \<and> (rest = [] \<or> rest = [EvRename (f @ ''.tmp'') f])
               \<and> ((OpWriteFile, f @ ''.tmp'') \<notin> set (faults d)
                    \<longrightarrow> rest = [EvRename (f @ ''.tmp'') f]))
         \<and> ((OpWriteFile, f @ ''.tmp'') \<notin> set (faults d)
              \<longrightarrow> (OpRename, f @ ''.tmp'') \<notin> set (faults d)
              \<longrightarrow> files (snd (optimizeWebp cfg lib f d)) (f @ ''.tmp'') = None
                \<and> files (snd (optimizeWebp cfg lib f d)) f = Some outBuf))
 \<and> (main cfg lib d0 = (None, st)
     \<longrightarrow> (\<forall>p b. EvWriteFile p b \<in> set (new_events d0 (disk st))
                 \<longrightarrow> endsWith p ''.tmp'' \<and> files (disk st) p = None)
         \<and> (\<forall>p. files (disk st) p \<noteq> None \<longrightarrow> files d0 p \<noteq> None))"
proof (rule conjI)
  show "is_webp f \<and> readFile f d = (Inr buf, d1) \<and> construct lib buf = None
      \<and> get_metadata lib buf = Inr meta
      \<and> pipeline lib (MAX_WIDTH cfg) (QUALITY cfg) buf = Inr outBuf
      \<and> (number_gt (Some (int (width_of meta))) (MAX_WIDTH cfg) \<or> length outBuf < length buf)
     \<longrightarrow> (\<exists>rest. new_events d (snd (optimizeWebp cfg lib f d))
                    = EvReadFile f # EvWriteFile (f @ ''.tmp'') outBuf # rest
               \<and> (rest = [] \<or> rest = [EvRename (f @ ''.tmp'') f])
               \<and> ((OpWriteFile, f @ ''.tmp'') \<notin> set (faults d)
                    \<longrightarrow> rest = [EvRename (f @ ''.tmp'') f]))
         \<and> ((OpWriteFile, f @ ''.tmp'') \<notin> set (faults d)
              \<longrightarrow> (OpRename, f @ ''.tmp'') \<notin> set (faults d)
              \<longrightarrow> files (snd (optimizeWebp cfg lib f d)) (f @ ''.tmp'') = None
                \<and> files (snd (optimizeWebp cfg lib f d)) f = Some outBuf)"
  proof
    assume h: "is_webp f \<and> readFile f d = (Inr buf, d1) \<and> construct lib buf = None
      \<and> get_metadata lib buf = Inr meta
      \<and> pipeline lib (MAX_WIDTH cfg) (QUALITY cfg) buf = Inr outBuf
      \<and> (number_gt (Some (int (width_of meta))) (MAX_WIDTH cfg) \<or> length outBuf < length buf)"
    then have rd: "readFile f d = (Inr buf, d1)"
      by simp
    note d1 = readFile_trace [OF rd]
    have enc: "optimizeWebp cfg lib f d =
         (case writeFile (f @ ''.tmp'') outBuf d1 of
            (Some e, d2) \<Rightarrow> (Inl e, d2)
          | (None, d2) \<Rightarrow>
              (case rename (f @ ''.tmp'') f d2 of
                 (Some e, d3) \<Rightarrow> (Inl e, d3)
               | (None, d3) \<Rightarrow>
                   (Inr (Changed (number_gt (Some (int (width_of meta))) (MAX_WIDTH cfg))
                           (length buf) (length outBuf) (width_of meta)), d3)))"
      using h optimizeWebp_encoded [of f d buf d1 lib meta cfg outBuf] by auto
    have order: "\<exists>rest. new_events d (snd (optimizeWebp cfg lib f d))
                    = EvReadFile f # EvWriteFile (f @ ''.tmp'') outBuf # rest
               \<and> (rest = [] \<or> rest = [EvRename (f @ ''.tmp'') f])
               \<and> ((OpWriteFile, f @ ''.tmp'') \<notin> set (faults d)
                    \<longrightarrow> rest = [EvRename (f @ ''.tmp'') f])"
      unfolding enc d1
      by (auto simp: writeFile_def rename_def log_event_def new_events_def Let_def)
    have replaced: "(OpWriteFile, f @ ''.tmp'') \<notin> set (faults d)
              \<longrightarrow> (OpRename, f @ ''.tmp'') \<notin> set (faults d)
              \<longrightarrow> files (snd (optimizeWebp cfg lib f d)) (f @ ''.tmp'') = None
                \<and> files (snd (optimizeWebp cfg lib f d)) f = Some outBuf"
      unfolding enc d1
      by (simp add: writeFile_def rename_def log_event_def Let_def)
    show "(\<exists>rest. new_events d (snd (optimizeWebp cfg lib f d))
                    = EvReadFile f # EvWriteFile (f @ ''.tmp'') outBuf # rest
               \<and> (rest = [] \<or> rest = [EvRename (f @ ''.tmp'') f])
               \<and> ((OpWriteFile, f @ ''.tmp'') \<notin> set (faults d)
                    \<longrightarrow> rest = [EvRename (f @ ''.tmp'') f]))
         \<and> ((OpWriteFile, f @ ''.tmp'') \<notin> set (faults d)
              \<longrightarrow> (OpRename, f @ ''.tmp'') \<notin> set (faults d)
              \<longrightarrow> files (snd (optimizeWebp cfg lib f d)) (f @ ''.tmp'') = None
                \<and> files (snd (optimizeWebp cfg lib f d)) f = Some outBuf)"
      using order replaced by (rule conjI)
  qed
next
  show "main cfg lib d0 = (None, st)
     \<longrightarrow> (\<forall>p b. EvWriteFile p b \<in> set (new_events d0 (disk st))
                 \<longrightarrow> endsWith p ''.tmp'' \<and> files (disk st) p = None)
         \<and> (\<forall>p. files (disk st) p \<noteq> None \<longrightarrow> files d0 p \<noteq> None)"
  proof
    assume run: "main cfg lib d0 = (None, st)"
    have "(\<forall>p. files (disk st) p \<noteq> None \<longrightarrow> files d0 p \<noteq> None)
        \<and> (\<exists>evs. trace (disk st) = trace d0 @ evs
               \<and> (\<forall>p b. EvWriteFile p b \<in> set evs
                      \<longrightarrow> files (disk st) p = None \<and> endsWith p ''.tmp''))"
    proof (cases "exists (TARGET_DIR cfg) d0")
      case False
      then have "disk st = d0"
        using run by (auto simp: main_def initial_state_def)
      then show ?thesis
        by simp
    next
      case True
      obtain all_files rs
        where "optimize_all cfg lib (filter is_webp all_files) d0 = (None, rs, disk st)"
        using main_done [OF run True] by blast
      then show ?thesis
        by (rule optimize_all_no_leftover)
    qed
    then obtain evs where dm: "\<forall>p. files (disk st) p \<noteq> None \<longrightarrow> files d0 p \<noteq> None"
      and tr: "trace (disk st) = trace d0 @ evs"
      and wr: "\<forall>p b. EvWriteFile p b \<in> set evs
                  \<longrightarrow> files (disk st) p = None \<and> endsWith p ''.tmp''"
      by blast
    have written: "\<forall>p b. EvWriteFile p b \<in> set (new_events d0 (disk st))
                   \<longrightarrow> endsWith p ''.tmp'' \<and> files (disk st) p = None"
      using wr unfolding new_events_append [OF tr] by blast
    show "(\<forall>p b. EvWriteFile p b \<in> set (new_events d0 (disk st))
                 \<longrightarrow> endsWith p ''.tmp'' \<and> files (disk st) p = None)
         \<and> (\<forall>p. files (disk st) p \<noteq> None \<longrightarrow> files d0 p \<noteq> None)"
      using written dm by (rule conjI)
  qed
qed

text \<open>
  The theorem at a run over \<open>a.webp\<close> and \<open>notes.tmp\<close>: the run writes \<open>a.webp.tmp\<close>, and
  that path is not on disk at the end.
\<close>

theorem temp_file_written_then_renamed_witness:
  "main cfg_default lib_wide_grows disk_notes
     = (None, snd (main cfg_default lib_wide_grows disk_notes))
 \<and> EvWriteFile ''/p/images/a.webp.tmp'' [1, 2, 3, 0]
     \<in> set (new_events disk_notes (disk (snd (main cfg_default lib_wide_grows disk_notes))))
 \<and> endsWith ''/p/images/a.webp.tmp'' ''.tmp''
 \<and> files (disk (snd (main cfg_default lib_wide_grows disk_notes))) ''/p/images/a.webp.tmp'' = None"
proof -
  have run: "main cfg_default lib_wide_grows disk_notes
               = (None, snd (main cfg_default lib_wide_grows disk_notes))"
    by (simp add: main_notes)
  have wrote: "EvWriteFile ''/p/images/a.webp.tmp'' [1, 2, 3, 0]
     \<in> set (new_events disk_notes (disk (snd (main cfg_default lib_wide_grows disk_notes))))"
    by (simp add: main_notes new_events_def) (simp add: example_defs)
  note inst = temp_file_written_then_renamed
      [where cfg = cfg_default and lib = lib_wide_grows and ?d0.0 = disk_notes
         and st = "snd (main cfg_default lib_wide_grows disk_notes)"]
  have "endsWith ''/p/images/a.webp.tmp'' ''.tmp''
      \<and> files (disk (snd (main cfg_default lib_wide_grows disk_notes))) ''/p/images/a.webp.tmp''
          = None"
    using inst run wrote by blast
  then show ?thesis
    using run wrote by blast
qed

text \<open>
  Claim C3 as stated fails where it says that no file with suffix \<open>.tmp\<close> remains after a
  successful run. Let \<open>images/\<close> hold \<open>a.webp\<close>, which needs no rewrite, and a file
  \<open>a.webp.tmp\<close> from before the run (an interrupted earlier run leaves one): the run exits
  with status 0 and \<open>a.webp.tmp\<close> is still there.
\<close>

theorem tmp_file_remains_counterexample:
  "exitCode (script cfg_default lib_narrow_grows disk_stale_tmp) = 0
 \<and> stderr (script cfg_default lib_narrow_grows disk_stale_tmp) = []
 \<and> endsWith ''/p/images/a.webp.tmp'' ''.tmp''
 \<and> files (disk (final (script cfg_default lib_narrow_grows disk_stale_tmp)))
       ''/p/images/a.webp.tmp''
     = Some [9]"
  by (simp add: script_def main_stale_tmp_unchanged) (simp add: endsWith_def example_defs)

subsection \<open>C4: files that do not end in .webp\<close>

text \<open>
  Claim C4, as amended. Only the walked files that pass the case-insensitive \<open>.webp\<close>
  test are handed to the per-file optimizer, and the lines printed and the count of changed
  files come from their results alone. Every call the run makes on a file is the read of a
  candidate, the write of a candidate's \<open>.tmp\<close> sibling, or the rename of that sibling over
  the candidate. So a file whose name does not end in \<open>.webp\<close> is never read, reported or
  counted; and unless its path is a candidate's path followed by \<open>.tmp\<close>, no call names
  it and its bytes after the run are its bytes before. This holds for a run that ends with
  an error as well.
\<close>

theorem only_candidates_are_touched:
  assumes wk: "walk_fs (TARGET_DIR cfg) d = Inr all_files"
    and run: "main cfg lib d = (eo, st)"
  shows "\<exists>rs. optimize_all cfg lib (filter is_webp all_files) d = (eo, rs, disk st)
      \<and> (\<forall>f \<in> fst ` set rs. is_webp f \<and> f \<in> set all_files)
      \<and> changedCount st = length (changed_files rs)
      \<and> stdout st = map (line_of cfg) (changed_files rs)
                     @ (if eo = None then [done_line (changedCount st) (savedBytes st)] else [])
      \<and> (\<forall>ev \<in> set (new_events d (disk st)). \<exists>f \<in> set all_files. is_webp f \<and> event_of f ev)
      \<and> (\<forall>p. \<not> is_webp p \<longrightarrow> EvReadFile p \<notin> set (new_events d (disk st)))
      \<and> (\<forall>p. \<not> is_webp p \<longrightarrow> (\<forall>f \<in> set all_files. is_webp f \<longrightarrow> p \<noteq> f @ ''.tmp'')
             \<longrightarrow> files (disk st) p = files d p
               \<and> (\<forall>ev \<in> set (new_events d (disk st)). \<not> mentions p ev))"
proof -
  obtain eo' rs d' where al: "optimize_all cfg lib (filter is_webp all_files) d = (eo', rs, d')"
    by (cases "optimize_all cfg lib (filter is_webp all_files) d") auto
  note res = main_results [OF wk al]
  have eo: "eo' = eo"
    using run res by simp
  have st: "st = \<lparr> disk = d',
                   stdout = map (line_of cfg) (changed_files rs)
                     @ (if eo = None then [done_line (length (changed_files rs)) (total_delta rs)]
                        else []),
                   changedCount = length (changed_files rs),
                   savedBytes = total_delta rs \<rparr>"
    using run res by (simp add: eo)
  have d': "disk st = d'"
    by (simp add: st)
  note eff = optimize_all_effects [OF al]
  obtain evs where tr: "trace d' = trace d @ evs"
    and evs: "\<forall>ev \<in> set evs. \<exists>f \<in> set (filter is_webp all_files). is_webp f \<and> event_of f ev"
    using eff by blast
  have frame: "\<And>p. (\<forall>f \<in> set (filter is_webp all_files). p \<noteq> f \<and> p \<noteq> f @ ''.tmp'')
                 \<Longrightarrow> files d' p = files d p"
    using eff by simp
  have new: "new_events d (disk st) = evs"
    unfolding d' by (rule new_events_append [OF tr])
  have c1: "optimize_all cfg lib (filter is_webp all_files) d = (eo, rs, disk st)"
    using al by (simp add: eo d')
  have "set (map fst rs) \<subseteq> set (filter is_webp all_files)"
    using optimize_all_paths [OF al] set_take_subset [of "length rs" "filter is_webp all_files"]
    by simp
  then have c2: "\<forall>f \<in> fst ` set rs. is_webp f \<and> f \<in> set all_files"
    by auto
  have c3: "changedCount st = length (changed_files rs)"
    by (simp add: st)
  have c4: "stdout st = map (line_of cfg) (changed_files rs)
                     @ (if eo = None then [done_line (changedCount st) (savedBytes st)] else [])"
    by (simp add: st)
  have c5: "\<forall>ev \<in> set (new_events d (disk st)). \<exists>f \<in> set all_files. is_webp f \<and> event_of f ev"
    unfolding new using evs by auto
  have c6: "\<forall>p. \<not> is_webp p \<longrightarrow> EvReadFile p \<notin> set (new_events d (disk st))"
  proof (intro allI impI notI)
    fix p
    assume nw: "\<not> is_webp p" and rd: "EvReadFile p \<in> set (new_events d (disk st))"
    then obtain f where "is_webp f" "event_of f (EvReadFile p)"
      using c5 by blast
    then show False
      using nw by simp
  qed
  have c7: "\<forall>p. \<not> is_webp p \<longrightarrow> (\<forall>f \<in> set all_files. is_webp f \<longrightarrow> p \<noteq> f @ ''.tmp'')
             \<longrightarrow> files (disk st) p = files d p
               \<and> (\<forall>ev \<in> set (new_events d (disk st)). \<not> mentions p ev)"
  proof (intro allI impI)
    fix p
    assume nw: "\<not> is_webp p"
      and nt: "\<forall>f \<in> set all_files. is_webp f \<longrightarrow> p \<noteq> f @ ''.tmp''"
    have apart: "\<forall>f \<in> set (filter is_webp all_files). p \<noteq> f \<and> p \<noteq> f @ ''.tmp''"
      using nw nt by auto
    have same: "files (disk st) p = files d p"
      unfolding d' by (rule frame [OF apart])
    have unnamed: "\<forall>ev \<in> set (new_events d (disk st)). \<not> mentions p ev"
    proof (intro ballI notI)
      fix ev
      assume "ev \<in> set (new_events d (disk st))" and m: "mentions p ev"
      then obtain f where f: "f \<in> set all_files" "is_webp f" "event_of f ev"
        using c5 by blast
      have "p = f \<or> p = f @ ''.tmp''"
        by (rule event_of_mentions [OF f(3) m])
      then show False
        using f nw nt by auto
    qed
    show "files (disk st) p = files d p
        \<and> (\<forall>ev \<in> set (new_events d (disk st)). \<not> mentions p ev)"
      using same unnamed by (rule conjI)
  qed
  show ?thesis
    by (rule exI [of _ rs], intro conjI) (fact c1, fact c2, fact c3, fact c4, fact c5, fact c6, fact c7)
qed

text \<open>
  The theorem at a run over \<open>a.webp\<close> and \<open>notes.tmp\<close>: the second file is not read, not
  named in any call, and keeps its bytes.
\<close>

theorem only_candidates_are_touched_witness:
  "walk_fs (TARGET_DIR cfg_default) disk_notes = Inr [''/p/images/a.webp'', ''/p/images/notes.tmp'']
 \<and> \<not> is_webp ''/p/images/notes.tmp''
 \<and> EvReadFile ''/p/images/notes.tmp''
     \<notin> set (new_events disk_notes (disk (snd (main cfg_default lib_wide_grows disk_notes))))
 \<and> files (disk (snd (main cfg_default lib_wide_grows disk_notes))) ''/p/images/notes.tmp''
     = files disk_notes ''/p/images/notes.tmp''"
proof -
  have wk: "walk_fs (TARGET_DIR cfg_default) disk_notes
              = Inr [''/p/images/a.webp'', ''/p/images/notes.tmp'']"
    by (rule walk_examples(3))
  have run: "main cfg_default lib_wide_grows disk_notes
               = (None, snd (main cfg_default lib_wide_grows disk_notes))"
    by (simp add: main_notes)
  have nw: "\<not> is_webp ''/p/images/notes.tmp''"
    by (simp add: string_defs)
  have nt: "\<forall>f \<in> set [''/p/images/a.webp'', ''/p/images/notes.tmp''].
              is_webp f \<longrightarrow> ''/p/images/notes.tmp'' \<noteq> f @ ''.tmp''"
    by simp
  show ?thesis
    using only_candidates_are_touched [OF wk run] wk nw nt by blast
qed

text \<open>
  Claim C4 as stated fails where it says that a file not ending in \<open>.webp\<close> is never
  written: \<open>a.webp.tmp\<close> is in the walked tree and does not end in \<open>.webp\<close>, and the run
  that rewrites \<open>a.webp\<close> writes over it and then renames it away.
\<close>

theorem non_webp_file_written_counterexample:
  "walk_fs (TARGET_DIR cfg_default) disk_stale_tmp
     = Inr [''/p/images/a.webp'', ''/p/images/a.webp.tmp'']
 \<and> \<not> is_webp ''/p/images/a.webp.tmp''
 \<and> files disk_stale_tmp ''/p/images/a.webp.tmp'' = Some [9]
 \<and> new_events disk_stale_tmp (disk (final (script cfg_default lib_wide_grows disk_stale_tmp)))
     = [EvReadFile ''/p/images/a.webp'',
        EvWriteFile ''/p/images/a.webp.tmp'' [1, 2, 3, 0],
        EvRename ''/p/images/a.webp.tmp'' ''/p/images/a.webp'']
 \<and> files (disk (final (script cfg_default lib_wide_grows disk_stale_tmp))) ''/p/images/a.webp.tmp''
     = None
 \<and> exitCode (script cfg_default lib_wide_grows disk_stale_tmp) = 0"
  by (simp add: script_def main_stale_tmp walk_examples new_events_def)
     (simp add: string_defs example_defs)

subsection \<open>C6: failures that end the run\<close>

text \<open>
  Claim C6. A failure of the file read, of the image constructor or the pipeline, of the
  write or of the rename is not caught by \<open>optimizeWebp\<close>, which throws it. When
  \<open>optimizeWebp\<close> throws on a candidate, after the candidates before it were processed
  without an error, the run ends there: the error is printed on the error stream, the exit
  status is 1, no summary line is printed, and the state is the one at the throw, whatever
  candidates follow.
\<close>

theorem other_failures_abort_the_run:
  assumes wk: "walk_fs (TARGET_DIR cfg) d = Inr all_files"
    and split: "filter is_webp all_files = pre @ f # post"
    and before: "optimize_all cfg lib pre d = (None, rs, d1)"
  shows "(\<forall>e d2. readFile f d1 = (Inl e, d2) \<longrightarrow> optimizeWebp cfg lib f d1 = (Inl e, d2))
      \<and> (\<forall>buf d2 e. readFile f d1 = (Inr buf, d2) \<and> construct lib buf = Some e
            \<longrightarrow> optimizeWebp cfg lib f d1 = (Inl e, d2))
      \<and> (\<forall>buf d2 meta e. readFile f d1 = (Inr buf, d2) \<and> construct lib buf = None
              \<and> get_metadata lib buf = Inr meta
              \<and> pipeline lib (MAX_WIDTH cfg) (QUALITY cfg) buf = Inl e
            \<longrightarrow> optimizeWebp cfg lib f d1 = (Inl e, d2))
      \<and> (\<forall>buf d2 meta outBuf e d3. readFile f d1 = (Inr buf, d2) \<and> construct lib buf = None
              \<and> get_metadata lib buf = Inr meta
              \<and> pipeline lib (MAX_WIDTH cfg) (QUALITY cfg) buf = Inr outBuf
              \<and> (number_gt (Some (int (width_of meta))) (MAX_WIDTH cfg)
                   \<or> length outBuf < length buf)
              \<and> writeFile (f @ ''.tmp'') outBuf d2 = (Some e, d3)
            \<longrightarrow> optimizeWebp cfg lib f d1 = (Inl e, d3))
      \<and> (\<forall>buf d2 meta outBuf e d3 d4. readFile f d1 = (Inr buf, d2) \<and> construct lib buf = None
              \<and> get_metadata lib buf = Inr meta
              \<and> pipeline lib (MAX_WIDTH cfg) (QUALITY cfg) buf = Inr outBuf
              \<and> (number_gt (Some (int (width_of meta))) (MAX_WIDTH cfg)
                   \<or> length outBuf < length buf)
              \<and> writeFile (f @ ''.tmp'') outBuf d2 = (None, d3)
              \<and> rename (f @ ''.tmp'') f d3 = (Some e, d4)
            \<longrightarrow> optimizeWebp cfg lib f d1 = (Inl e, d4))
      \<and> (\<forall>e d2. optimizeWebp cfg lib f d1 = (Inl e, d2)
            \<longrightarrow> script cfg lib d
                  = \<lparr> final = \<lparr> disk = d2,
                                stdout = map (line_of cfg) (changed_files rs),
                                changedCount = length (changed_files rs),
                                savedBytes = total_delta rs \<rparr>,
                      stderr = [e],
                      exitCode = 1 \<rparr>)"
proof -
  have "f \<in> set (filter is_webp all_files)"
    by (simp add: split)
  then have cand: "is_webp f"
    by simp
  have k1: "\<forall>e d2. readFile f d1 = (Inl e, d2) \<longrightarrow> optimizeWebp cfg lib f d1 = (Inl e, d2)"
    using cand by (simp add: optimizeWebp_def)
  have k2: "\<forall>buf d2 e. readFile f d1 = (Inr buf, d2) \<and> construct lib buf = Some e
            \<longrightarrow> optimizeWebp cfg lib f d1 = (Inl e, d2)"
    using cand by (simp add: optimizeWebp_def)
  have k3: "\<forall>buf d2 meta e. readFile f d1 = (Inr buf, d2) \<and> construct lib buf = None
              \<and> get_metadata lib buf = Inr meta
              \<and> pipeline lib (MAX_WIDTH cfg) (QUALITY cfg) buf = Inl e
            \<longrightarrow> optimizeWebp cfg lib f d1 = (Inl e, d2)"
    using cand by (simp add: optimizeWebp_def)
  have k4: "\<forall>buf d2 meta outBuf e d3. readFile f d1 = (Inr buf, d2) \<and> construct lib buf = None
              \<and> get_metadata lib buf = Inr meta
              \<and> pipeline lib (MAX_WIDTH cfg) (QUALITY cfg) buf = Inr outBuf
              \<and> (number_gt (Some (int (width_of meta))) (MAX_WIDTH cfg)
                   \<or> length outBuf < length buf)
              \<and> writeFile (f @ ''.tmp'') outBuf d2 = (Some e, d3)
            \<longrightarrow> optimizeWebp cfg lib f d1 = (Inl e, d3)"
    using cand by (auto simp: optimizeWebp_def Let_def)
  have k5: "\<forall>buf d2 meta outBuf e d3 d4. readFile f d1 = (Inr buf, d2) \<and> construct lib buf = None
              \<and> get_metadata lib buf = Inr meta
              \<and> pipeline lib (MAX_WIDTH cfg) (QUALITY cfg) buf = Inr outBuf
              \<and> (number_gt (Some (int (width_of meta))) (MAX_WIDTH cfg)
                   \<or> length outBuf < length buf)
              \<and> writeFile (f @ ''.tmp'') outBuf d2 = (None, d3)
              \<and> rename (f @ ''.tmp'') f d3 = (Some e, d4)
            \<longrightarrow> optimizeWebp cfg lib f d1 = (Inl e, d4)"
    using cand by (auto simp: optimizeWebp_def Let_def)
  have k6: "\<forall>e d2. optimizeWebp cfg lib f d1 = (Inl e, d2)
            \<longrightarrow> script cfg lib d
                  = \<lparr> final = \<lparr> disk = d2,
                                stdout = map (line_of cfg) (changed_files rs),
                                changedCount = length (changed_files rs),
                                savedBytes = total_delta rs \<rparr>,
                      stderr = [e],
                      exitCode = 1 \<rparr>"
  proof (intro allI impI)
    fix e d2
    assume thrown: "optimizeWebp cfg lib f d1 = (Inl e, d2)"
    have here: "optimize_all cfg lib (f # post) d1 = (Some e, [], d2)"
      using thrown by simp
    have "optimize_all cfg lib (pre @ f # post) d = (Some e, rs, d2)"
      by (simp add: optimize_all_append before here del: optimize_all.simps)
    then have al: "optimize_all cfg lib (filter is_webp all_files) d = (Some e, rs, d2)"
      by (simp add: split)
    show "script cfg lib d
            = \<lparr> final = \<lparr> disk = d2,
                          stdout = map (line_of cfg) (changed_files rs),
                          changedCount = length (changed_files rs),
                          savedBytes = total_delta rs \<rparr>,
                stderr = [e],
                exitCode = 1 \<rparr>"
      using main_results [OF wk al] by (simp add: script_def)
  qed
  show ?thesis
    by (intro conjI) (fact k1, fact k2, fact k3, fact k4, fact k5, fact k6)
qed

text \<open>
  The theorem at a run over \<open>a.webp\<close> and \<open>b.webp\<close> where the write of \<open>a.webp.tmp\<close>
  fails: the run exits with status 1 after two calls, and \<open>b.webp\<close> is never read.
\<close>

theorem other_failures_abort_the_run_witness:
  "walk_fs (TARGET_DIR cfg_default) disk_write_fault
     = Inr [''/p/images/a.webp'', ''/p/images/b.webp'']
 \<and> script cfg_default lib_narrow_shrinks disk_write_fault
     = \<lparr> final = \<lparr> disk = disk_write_fault
                            \<lparr>trace := [EvReadFile ''/p/images/a.webp'',
                                       EvWriteFile ''/p/images/a.webp.tmp'' [1, 2]]\<rparr>,
                   stdout = [],
                   changedCount = 0,
                   savedBytes = 0 \<rparr>,
         stderr = [IOFault OpWriteFile ''/p/images/a.webp.tmp''],
         exitCode = 1 \<rparr>"
proof -
  have wk: "walk_fs (TARGET_DIR cfg_default) disk_write_fault
              = Inr [''/p/images/a.webp'', ''/p/images/b.webp'']"
    by (rule walk_examples(5))
  have split: "filter is_webp [''/p/images/a.webp'', ''/p/images/b.webp'']
                 = [] @ ''/p/images/a.webp'' # [''/p/images/b.webp'']"
    by (simp add: string_defs)
  have before: "optimize_all cfg_default lib_narrow_shrinks [] disk_write_fault
                  = (None, [], disk_write_fault)"
    by simp
  have thrown: "optimizeWebp cfg_default lib_narrow_shrinks ''/p/images/a.webp'' disk_write_fault
      = (Inl (IOFault OpWriteFile ''/p/images/a.webp.tmp''),
         disk_write_fault\<lparr>trace := [EvReadFile ''/p/images/a.webp'',
                                    EvWriteFile ''/p/images/a.webp.tmp'' [1, 2]]\<rparr>)"
    by (simp add: optimizeWebp_def fs_defs width_of_def string_defs example_defs Let_def)
  show ?thesis
    using wk other_failures_abort_the_run [OF wk split before] thrown
    by (simp add: changed_files_def total_delta_def)
qed


subsection \<open>C7: the lines printed\<close>

lemma results_picky:
  "optimize_all cfg_default lib_picky (filter is_webp [''/p/images/a.webp'', ''/p/images/b.webp''])
     disk_two
     = (None,
        [(''/p/images/a.webp'', Unchanged (Some metadata_failed)),
         (''/p/images/b.webp'', Changed False 3 2 800)],
        disk_two\<lparr>files := ((files disk_two)(''/p/images/b.webp.tmp'' := None))
                               (''/p/images/b.webp'' \<mapsto> [4, 5]),
                 trace := [EvReadFile ''/p/images/a.webp'',
                           EvReadFile ''/p/images/b.webp'',
                           EvWriteFile ''/p/images/b.webp.tmp'' [4, 5],
                           EvRename ''/p/images/b.webp.tmp'' ''/p/images/b.webp'']\<rparr>)"
  by (simp add: optimizeWebp_def fs_defs width_of_def string_defs example_defs Let_def)

lemma results_one:
  "optimize_all cfg_default lib_wide_grows (filter is_webp [''/p/images/a.webp'']) disk_one
     = (None,
        [(''/p/images/a.webp'', Changed True 3 4 3000)],
        disk_one\<lparr>files := ((files disk_one)(''/p/images/a.webp.tmp'' := None))
                               (''/p/images/a.webp'' \<mapsto> [1, 2, 3, 0]),
                 trace := [EvReadFile ''/p/images/a.webp'',
                           EvWriteFile ''/p/images/a.webp.tmp'' [1, 2, 3, 0],
                           EvRename ''/p/images/a.webp.tmp'' ''/p/images/a.webp'']\<rparr>)"
  by (simp add: optimizeWebp_def fs_defs width_of_def string_defs example_defs Let_def)

text \<open>
  Claim C7, as amended. Let the run have walked the directory, and let the results of the
  candidates it processed be given in order. For every changed file the driver prints
  exactly one line, in that order, made of the check mark U+2705, \<open> optimized: \<close>, the path
  relative to the working directory, and \<open> (<old> -> <new> bytes)\<close>. When all candidates
  were processed without an error it then prints exactly one final line
  \<open>Done. changed=<n>, saved=<bytes> bytes\<close>, where \<open>n\<close> is the number of changed files and
  \<open>bytes\<close> is the total of their byte deltas; a run that ends with an error prints no final
  line.
\<close>

theorem output_lines:
  assumes wk: "walk_fs (TARGET_DIR cfg) d = Inr all_files"
    and run: "main cfg lib d = (eo, st)"
  shows "\<exists>rs. optimize_all cfg lib (filter is_webp all_files) d = (eo, rs, disk st)
      \<and> (eo = None \<longrightarrow> map fst rs = filter is_webp all_files)
      \<and> changedCount st = length (changed_files rs)
      \<and> savedBytes st = total_delta rs
      \<and> stdout st
          = map (\<lambda>(f, r). check_mark @ '' optimized: '' @ path_relative (ROOT cfg) f @ '' (''
                             @ show_nat (oldBytes r) @ '' -> '' @ show_nat (newBytes r)
                             @ '' bytes)'')
              (changed_files rs)
            @ (if eo = None
               then [''Done. changed='' @ show_nat (changedCount st) @ '', saved=''
                       @ show_int (savedBytes st) @ '' bytes'']
               else [])"
proof -
  obtain eo' rs d' where al: "optimize_all cfg lib (filter is_webp all_files) d = (eo', rs, d')"
    by (cases "optimize_all cfg lib (filter is_webp all_files) d") auto
  note res = main_results [OF wk al]
  have eo: "eo' = eo"
    using run res by simp
  have st: "st = \<lparr> disk = d',
                   stdout = map (line_of cfg) (changed_files rs)
                     @ (if eo = None then [done_line (length (changed_files rs)) (total_delta rs)]
                        else []),
                   changedCount = length (changed_files rs),
                   savedBytes = total_delta rs \<rparr>"
    using run res by (simp add: eo)
  have c1: "optimize_all cfg lib (filter is_webp all_files) d = (eo, rs, disk st)"
    using al by (simp add: eo st)
  have c2: "eo = None \<longrightarrow> map fst rs = filter is_webp all_files"
    using optimize_all_paths [OF al] unfolding eo by blast
  have c3: "changedCount st = length (changed_files rs)"
    by (simp add: st)
  have c4: "savedBytes st = total_delta rs"
    by (simp add: st)
  have c5: "stdout st
          = map (\<lambda>(f, r). check_mark @ '' optimized: '' @ path_relative (ROOT cfg) f @ '' (''
                             @ show_nat (oldBytes r) @ '' -> '' @ show_nat (newBytes r)
                             @ '' bytes)'')
              (changed_files rs)
            @ (if eo = None
               then [''Done. changed='' @ show_nat (changedCount st) @ '', saved=''
                       @ show_int (savedBytes st) @ '' bytes'']
               else [])"
    unfolding line_of_changed [symmetric] by (simp add: st done_line_def)
  show ?thesis
    by (rule exI [of _ rs], intro conjI) (fact c1, fact c2, fact c3, fact c4, fact c5)
qed

text \<open>
  The theorem at a run over two candidates of which the second is changed: two lines.
\<close>

theorem output_lines_witness:
  "walk_fs (TARGET_DIR cfg_default) disk_two = Inr [''/p/images/a.webp'', ''/p/images/b.webp'']
 \<and> stdout (snd (main cfg_default lib_picky disk_two))
     = [check_mark @ '' optimized: images/b.webp (3 -> 2 bytes)'',
        ''Done. changed=1, saved=1 bytes'']"
proof -
  have wk: "walk_fs (TARGET_DIR cfg_default) disk_two
              = Inr [''/p/images/a.webp'', ''/p/images/b.webp'']"
    by (rule walk_examples(2))
  have run: "main cfg_default lib_picky disk_two = (None, snd (main cfg_default lib_picky disk_two))"
    by (simp add: main_picky)
  obtain rs where rs: "optimize_all cfg_default lib_picky
          (filter is_webp [''/p/images/a.webp'', ''/p/images/b.webp'']) disk_two
        = (None, rs, disk (snd (main cfg_default lib_picky disk_two)))"
    and count: "changedCount (snd (main cfg_default lib_picky disk_two)) = length (changed_files rs)"
    and saved: "savedBytes (snd (main cfg_default lib_picky disk_two)) = total_delta rs"
    and out: "stdout (snd (main cfg_default lib_picky disk_two))
          = map (\<lambda>(f, r). check_mark @ '' optimized: '' @ path_relative (ROOT cfg_default) f
                             @ '' ('' @ show_nat (oldBytes r) @ '' -> '' @ show_nat (newBytes r)
                             @ '' bytes)'')
              (changed_files rs)
            @ (if (None :: error option) = None
               then [''Done. changed=''
                       @ show_nat (changedCount (snd (main cfg_default lib_picky disk_two)))
                       @ '', saved=''
                       @ show_int (savedBytes (snd (main cfg_default lib_picky disk_two)))
                       @ '' bytes'']
               else [])"
    using output_lines [OF wk run] by blast
  have "rs = [(''/p/images/a.webp'', Unchanged (Some metadata_failed)),
              (''/p/images/b.webp'', Changed False 3 2 800)]"
    using rs unfolding results_picky by simp
  then have "stdout (snd (main cfg_default lib_picky disk_two))
     = [check_mark @ '' optimized: images/b.webp (3 -> 2 bytes)'',
        ''Done. changed=1, saved=1 bytes'']"
    unfolding out count saved
    by (simp add: changed_files_def total_delta_def path_relative_def path_join_def
          cfg_default_eq show_nat_small digit_char_def show_int_def)
  then show ?thesis
    using wk by (rule conjI [rotated])
qed

text \<open>
  Claim C7 as stated fails in the form of the two lines: for one changed file
  \<open>images/a.webp\<close> going from 3 to 4 bytes, the run prints the check mark before
  \<open>optimized:\<close>, spaces around the arrow, and \<open> bytes\<close> at the end of the final line, so
  neither line is the one the claim gives.
\<close>

theorem output_lines_counterexample:
  "stdout (final (script cfg_default lib_wide_grows disk_one))
     = [check_mark @ '' optimized: images/a.webp (3 -> 4 bytes)'',
        ''Done. changed=1, saved=-1 bytes'']
 \<and> spec_optimized_line ''images/a.webp'' 3 4 = ''optimized: images/a.webp (3->4 bytes)''
 \<and> spec_done_line 1 (- 1) = ''Done. changed=1, saved=-1''
 \<and> spec_optimized_line ''images/a.webp'' 3 4
     \<notin> set (stdout (final (script cfg_default lib_wide_grows disk_one)))
 \<and> spec_done_line 1 (- 1) \<notin> set (stdout (final (script cfg_default lib_wide_grows disk_one)))"
  by (simp add: script_def main_one spec_optimized_line_def spec_done_line_def show_nat_small
        digit_char_def show_int_def check_mark_def)

subsection \<open>C10: the total of saved bytes\<close>

text \<open>
  Claim C10. After a run that walked the directory and ended without an error, the saved
  bytes are the sum, over the changed files, of the original byte count minus the new byte
  count, and the final line reports that sum. The total can be negative: the 3000 pixel
  wide image of three bytes whose new encoding has four is rewritten because it is resized,
  and the run over it alone reports \<open>saved=-1\<close>.
\<close>

theorem saved_bytes_is_sum_of_deltas:
  "(walk_fs (TARGET_DIR cfg) d = Inr all_files \<and> main cfg lib d = (None, st)
     \<longrightarrow> (\<exists>rs. optimize_all cfg lib (filter is_webp all_files) d = (None, rs, disk st)
            \<and> savedBytes st
                = sum_list (map (\<lambda>(f, r). int (oldBytes r) - int (newBytes r)) (changed_files rs))
            \<and> last (stdout st)
                = ''Done. changed='' @ show_nat (length (changed_files rs)) @ '', saved=''
                    @ show_int (sum_list (map (\<lambda>(f, r). int (oldBytes r) - int (newBytes r))
                                           (changed_files rs)))
                    @ '' bytes''))
 \<and> fst (optimizeWebp cfg_default lib_wide_grows ''/p/images/a.webp'' disk_one)
     = Inr (Changed True 3 4 3000)
 \<and> savedBytes (snd (main cfg_default lib_wide_grows disk_one)) = - 1
 \<and> last (stdout (snd (main cfg_default lib_wide_grows disk_one)))
     = ''Done. changed=1, saved=-1 bytes''"
proof -
  have general: "walk_fs (TARGET_DIR cfg) d = Inr all_files \<and> main cfg lib d = (None, st)
     \<longrightarrow> (\<exists>rs. optimize_all cfg lib (filter is_webp all_files) d = (None, rs, disk st)
            \<and> savedBytes st
                = sum_list (map (\<lambda>(f, r). int (oldBytes r) - int (newBytes r)) (changed_files rs))
            \<and> last (stdout st)
                = ''Done. changed='' @ show_nat (length (changed_files rs)) @ '', saved=''
                    @ show_int (sum_list (map (\<lambda>(f, r). int (oldBytes r) - int (newBytes r))
                                           (changed_files rs)))
                    @ '' bytes'')"
  proof
    assume h: "walk_fs (TARGET_DIR cfg) d = Inr all_files \<and> main cfg lib d = (None, st)"
    then have wk: "walk_fs (TARGET_DIR cfg) d = Inr all_files"
      and run: "main cfg lib d = (None, st)"
      by simp_all
    obtain all_files' rs where wk': "walk_fs (TARGET_DIR cfg) d = Inr all_files'"
      and al: "optimize_all cfg lib (filter is_webp all_files') d = (None, rs, disk st)"
      and out: "stdout st = map (line_of cfg) (changed_files rs)
                          @ [done_line (length (changed_files rs)) (total_delta rs)]"
      and saved: "savedBytes st = total_delta rs"
      using main_done [OF run walk_fs_exists [OF wk]] by blast
    have same: "all_files' = all_files"
      using wk wk' by simp
    have c1: "optimize_all cfg lib (filter is_webp all_files) d = (None, rs, disk st)"
      using al by (simp add: same)
    have c2: "savedBytes st
                = sum_list (map (\<lambda>(f, r). int (oldBytes r) - int (newBytes r)) (changed_files rs))"
      using saved by (simp add: total_delta_changed)
    have c3: "last (stdout st)
                = ''Done. changed='' @ show_nat (length (changed_files rs)) @ '', saved=''
                    @ show_int (sum_list (map (\<lambda>(f, r). int (oldBytes r) - int (newBytes r))
                                           (changed_files rs)))
                    @ '' bytes''"
      unfolding out total_delta_changed [symmetric] by (simp add: done_line_def)
    show "\<exists>rs. optimize_all cfg lib (filter is_webp all_files) d = (None, rs, disk st)
            \<and> savedBytes st
                = sum_list (map (\<lambda>(f, r). int (oldBytes r) - int (newBytes r)) (changed_files rs))
            \<and> last (stdout st)
                = ''Done. changed='' @ show_nat (length (changed_files rs)) @ '', saved=''
                    @ show_int (sum_list (map (\<lambda>(f, r). int (oldBytes r) - int (newBytes r))
                                           (changed_files rs)))
                    @ '' bytes''"
      by (rule exI [of _ rs], intro conjI) (fact c1, fact c2, fact c3)
  qed
  have one: "fst (optimizeWebp cfg_default lib_wide_grows ''/p/images/a.webp'' disk_one)
               = Inr (Changed True 3 4 3000)"
    by (simp add: optimizeWebp_def fs_defs width_of_def string_defs example_defs Let_def)
  have negative: "savedBytes (snd (main cfg_default lib_wide_grows disk_one)) = - 1"
    by (simp add: main_one)
  have reported: "last (stdout (snd (main cfg_default lib_wide_grows disk_one)))
                    = ''Done. changed=1, saved=-1 bytes''"
    by (simp add: main_one)
  show ?thesis
    by (intro conjI) (fact general, fact one, fact negative, fact reported)
qed

text \<open>
  The theorem at the run over the one wide image: the only changed file goes from 3 to 4
  bytes, and the total is \<open>3 - 4\<close>.
\<close>

theorem saved_bytes_is_sum_of_deltas_witness:
  "walk_fs (TARGET_DIR cfg_default) disk_one = Inr [''/p/images/a.webp'']
 \<and> main cfg_default lib_wide_grows disk_one = (None, snd (main cfg_default lib_wide_grows disk_one))
 \<and> savedBytes (snd (main cfg_default lib_wide_grows disk_one)) = int 3 - int 4"
proof -
  have wk: "walk_fs (TARGET_DIR cfg_default) disk_one = Inr [''/p/images/a.webp'']"
    by (rule walk_examples(1))
  have run: "main cfg_default lib_wide_grows disk_one
               = (None, snd (main cfg_default lib_wide_grows disk_one))"
    by (simp add: main_one)
  note inst = saved_bytes_is_sum_of_deltas
      [where cfg = cfg_default and lib = lib_wide_grows and d = disk_one
         and all_files = "[''/p/images/a.webp'']"
         and st = "snd (main cfg_default lib_wide_grows disk_one)"]
  obtain rs where rs: "optimize_all cfg_default lib_wide_grows
          (filter is_webp [''/p/images/a.webp'']) disk_one
        = (None, rs, disk (snd (main cfg_default lib_wide_grows disk_one)))"
    and saved: "savedBytes (snd (main cfg_default lib_wide_grows disk_one))
        = sum_list (map (\<lambda>(f, r). int (oldBytes r) - int (newBytes r)) (changed_files rs))"
    using inst wk run by blast
  have "rs = [(''/p/images/a.webp'', Changed True 3 4 3000)]"
    using rs unfolding results_one by simp
  then have "savedBytes (snd (main cfg_default lib_wide_grows disk_one)) = int 3 - int 4"
    unfolding saved by (simp add: changed_files_def)
  then show ?thesis
    using wk run by blast
qed


end
